theory Spec2Isabelle
  imports Main "HOL-Library.Word" "HOL-Library.Char_ord" "HOL-Library.List_Lexorder"
begin

unbundle bit_operations_syntax

section \<open>Range Codec: \<open>incrementIP\<close> and \<open>ipRange\<close> of sa.go\<close>

text \<open>
  A \<open>net.IP\<close> is a byte slice of length 4 or 16; the nil slice is the empty list.
  The functions \<open>To4\<close>, \<open>To16\<close>, \<open>CIDRMask\<close> and \<open>Mask\<close> are the ones of Go's
  \<open>net\<close> package that \<open>ipRange\<close> calls; \<open>SetBytes\<close> and \<open>Bytes\<close> are the big-endian
  conversions of \<open>math/big\<close>, with \<open>big.Int\<close> as \<open>nat\<close> (the values are never negative).
\<close>

type_synonym byte = "8 word"
type_synonym IP = "byte list"

definition IPv4 :: "byte \<Rightarrow> byte \<Rightarrow> byte \<Rightarrow> byte \<Rightarrow> IP" where
  "IPv4 a b c d = replicate 10 0 @ [0xff, 0xff, a, b, c, d]"

definition To16 :: "IP \<Rightarrow> IP" where
  "To16 ip =
     (if length ip = 4 then IPv4 (ip ! 0) (ip ! 1) (ip ! 2) (ip ! 3)
      else if length ip = 16 then ip
      else [])"

definition To4 :: "IP \<Rightarrow> IP" where
  "To4 ip =
     (if length ip = 4 then ip
      else if length ip = 16 \<and> take 10 ip = replicate 10 0 \<and> ip ! 10 = 0xff \<and> ip ! 11 = 0xff
        then drop 12 ip
      else [])"

text \<open>The loop of \<open>CIDRMask\<close>: \<open>l\<close> bytes still to write, \<open>n\<close> one-bits still to place.\<close>

fun CIDRMask_loop :: "nat \<Rightarrow> nat \<Rightarrow> byte list" where
  "CIDRMask_loop 0 n = []"
| "CIDRMask_loop (Suc l) n =
     (if n \<ge> 8 then 0xff # CIDRMask_loop l (n - 8)
      else (NOT (drop_bit n (0xff :: byte))) # CIDRMask_loop l 0)"

definition CIDRMask :: "nat \<Rightarrow> nat \<Rightarrow> byte list" where
  "CIDRMask ones bits =
     (if bits \<noteq> 32 \<and> bits \<noteq> 128 then []
      else if ones > bits then []
      else CIDRMask_loop (bits div 8) ones)"

definition Mask :: "IP \<Rightarrow> byte list \<Rightarrow> IP" where
  "Mask ip0 mask0 =
     (let mask = (if length mask0 = 16 \<and> length ip0 = 4 \<and> take 12 mask0 = replicate 12 0xff
                  then drop 12 mask0 else mask0);
          ip = (if length mask = 4 \<and> length ip0 = 16 \<and> take 12 ip0 = replicate 10 0 @ [0xff, 0xff]
                then drop 12 ip0 else ip0)
      in if length ip \<noteq> length mask then []
         else map (\<lambda>(a, m). a AND m) (zip ip mask))"

definition SetBytes :: "byte list \<Rightarrow> nat" where
  "SetBytes bs = foldl (\<lambda>acc b. acc * 256 + unat b) 0 bs"

function Bytes :: "nat \<Rightarrow> byte list" where
  "Bytes n = (if n = 0 then [] else Bytes (n div 256) @ [of_nat (n mod 256)])"
  by pat_completeness auto
termination
  by (relation "measure id") auto

declare Bytes.simps [simp del]

definition incrementIP :: "IP \<Rightarrow> nat \<Rightarrow> IP" where
  "incrementIP ip index =
     (let bigInt = SetBytes ip;
          incr = push_bit (128 - index) (1 :: nat);
          bigInt = bigInt + incr;
          resultBytes = Bytes bigInt
      in if length resultBytes > 16 then replicate 16 0xff
         else replicate (16 - length resultBytes) 0 @ resultBytes)"

definition ipRange :: "IP \<Rightarrow> IP \<times> IP" where
  "ipRange ip0 =
     (let ip = To16 ip0;
          maskLength = (if To4 ip \<noteq> [] then 128 else 48);
          mask = CIDRMask maskLength 128;
          begin = Mask ip mask;
          end = incrementIP begin maskLength
      in (begin, end))"

section \<open>Name-Set Digest: \<open>hashNames\<close> of sa.go\<close>

text \<open>
  \<open>strings.ToLower\<close> on the ASCII letters (domain names are ASCII), and \<open>strings.Join\<close>.
\<close>

definition ToLower_char :: "char \<Rightarrow> char" where
  "ToLower_char c =
     (case map_of (zip ''ABCDEFGHIJKLMNOPQRSTUVWXYZ'' ''abcdefghijklmnopqrstuvwxyz'') c of
        Some l \<Rightarrow> l
      | None \<Rightarrow> c)"

definition ToLower :: "string \<Rightarrow> string" where
  "ToLower s = map ToLower_char s"

fun Join :: "string list \<Rightarrow> string \<Rightarrow> string" where
  "Join [] sep = []"
| "Join [x] sep = x"
| "Join (x # y # ys) sep = x @ sep @ Join (y # ys) sep"

text \<open>
  Modelled from the spec: \<open>core.UniqueLowerNames\<close> is not among the source files. The spec
  has the digest lower-case every name, remove duplicates and join a canonical,
  deterministic form of the set; the canonical form taken here is the sorted one
  (\<open>sort.Strings\<close> order, which is the lexicographic order on bytes).
\<close>

definition UniqueLowerNames :: "string list \<Rightarrow> string list" where
  "UniqueLowerNames names = sort (remdups (map ToLower names))"

text \<open>
  The hash primitive is an opaque collaborator: \<open>sha256\<close> is a parameter of the model.
\<close>

definition hashNames :: "(string \<Rightarrow> string) \<Rightarrow> string list \<Rightarrow> string" where
  "hashNames sha256 names0 =
     (let names = UniqueLowerNames names0;
          hash = sha256 (Join names '','')
      in hash)"

section \<open>The data of the storage authority\<close>

type_synonym time = int

text \<open>
  Modelled from the spec: package \<open>core\<close> is not among the source files. The spec's data
  model gives an authorization the statuses pending, valid, invalid and deactivated, and
  an OCSP status the values good and revoked; the fields are the ones sa.go reads or
  writes, with the spec's attributes.
\<close>

datatype AcmeStatus = StatusPending | StatusValid | StatusInvalid | StatusDeactivated

datatype OCSPStatus = OCSPStatusGood | OCSPStatusRevoked

record Challenge =
  chall_ID :: int
  chall_Type :: string
  chall_Status :: AcmeStatus
  chall_Token :: string

record Authorization =
  authz_ID :: string
  authz_RegistrationID :: int
  authz_Identifier :: string
  authz_Status :: AcmeStatus
  authz_Expires :: "time option"
  authz_Challenges :: "Challenge list"

text \<open>The utility models of sa.go: \<open>authzModel\<close> embeds the authorization and adds nothing.\<close>

type_synonym authzModel = Authorization

record pendingauthzModel =
  pa_Authorization :: Authorization
  pa_LockCol :: int

record challModel =
  cm_ID :: int
  cm_AuthorizationID :: string
  cm_Type :: string
  cm_Status :: AcmeStatus
  cm_Token :: string

record Certificate =
  cert_RegistrationID :: int
  cert_Serial :: string
  cert_Digest :: string
  cert_DER :: "byte list"
  cert_Issued :: time
  cert_Expires :: time

record CertificateStatus =
  cs_SubscriberApproved :: bool
  cs_Status :: OCSPStatus
  cs_OCSPLastUpdated :: time
  cs_OCSPResponse :: "byte list"
  cs_Serial :: string
  cs_RevokedDate :: time
  cs_RevokedReason :: int
  cs_LockCol :: int

record issuedName =
  in_reversedName :: string
  in_serial :: string
  in_notBefore :: time

record FQDNSet =
  fs_SetHash :: string
  fs_Serial :: string
  fs_Issued :: time
  fs_Expires :: time

text \<open>What \<open>x509.ParseCertificate\<close> hands to \<open>AddCertificate\<close>.\<close>

record x509_Certificate =
  x509_SerialNumber :: int
  x509_NotBefore :: time
  x509_NotAfter :: time
  x509_DNSNames :: "string list"

text \<open>
  The opaque collaborators of the issuance ledger: the X.509 decoder, the fingerprint and
  hash primitives and the two string conversions of package \<open>core\<close>.
\<close>

record collaborators =
  ParseCertificate :: "byte list \<Rightarrow> string + x509_Certificate"
  Fingerprint256 :: "byte list \<Rightarrow> string"
  SerialToString :: "int \<Rightarrow> string"
  ReverseName :: "string \<Rightarrow> string"
  sha256 :: "string \<Rightarrow> string"

datatype error =
    ErrorString string
  | DriverError
  | DuplicateEntry
  | SQLSyntaxError
  | NoSuchTable string
  | ErrNoRows
  | NotFound
  | ParseError string
  | TooManyCertificatesError string

section \<open>The relational store\<close>

text \<open>
  The tables sa.go writes, each a list of rows in insertion order. A connection is the
  tables it sees together with the outcomes the driver is going to report for the
  statements to come (\<open>True\<close>: the statement fails); an exhausted list means no
  further failure. \<open>ssa.dbMap\<close> and a \<open>gorp.Transaction\<close> are both connections.
\<close>

record database =
  authz :: "authzModel list"
  pendingAuthorizations :: "pendingauthzModel list"
  challenges :: "challModel list"
  certificates :: "Certificate list"
  certificateStatus :: "CertificateStatus list"
  issuedNames :: "issuedName list"
  fqdnSets :: "FQDNSet list"

record conn =
  db :: database
  faults :: "bool list"

type_synonym DbMap = conn
type_synonym Transaction = conn

record SQLStorageAuthority =
  dbMap :: DbMap
  clk :: time

definition next_fault :: "bool list \<Rightarrow> bool \<times> bool list" where
  "next_fault fs = (case fs of [] \<Rightarrow> (False, []) | f # fs' \<Rightarrow> (f, fs'))"

text \<open>
  One round trip: a statement that writes, a query, and a statement that writes and hands
  a row back (an insert that fills in the auto-increment key).
\<close>

definition Exec :: "conn \<Rightarrow> (database \<Rightarrow> error + database) \<Rightarrow> error + conn" where
  "Exec c stmt =
     (case next_fault (faults c) of
        (failed, fs) \<Rightarrow>
          if failed then Inl DriverError
          else (case stmt (db c) of
                  Inl err \<Rightarrow> Inl err
                | Inr d \<Rightarrow> Inr \<lparr>db = d, faults = fs\<rparr>))"

definition Query :: "conn \<Rightarrow> (database \<Rightarrow> error + 'a) \<Rightarrow> error + 'a \<times> conn" where
  "Query c q =
     (case next_fault (faults c) of
        (failed, fs) \<Rightarrow>
          if failed then Inl DriverError
          else (case q (db c) of
                  Inl err \<Rightarrow> Inl err
                | Inr rows \<Rightarrow> Inr (rows, \<lparr>db = db c, faults = fs\<rparr>)))"

definition ExecReturning :: "conn \<Rightarrow> (database \<Rightarrow> error + 'a \<times> database) \<Rightarrow> error + 'a \<times> conn" where
  "ExecReturning c stmt =
     (case next_fault (faults c) of
        (failed, fs) \<Rightarrow>
          if failed then Inl DriverError
          else (case stmt (db c) of
                  Inl err \<Rightarrow> Inl err
                | Inr (row, d) \<Rightarrow> Inr (row, \<lparr>db = d, faults = fs\<rparr>)))"

text \<open>
  Modelled from the spec: the transaction coordinator (\<open>Begin\<close>, \<open>Commit\<close> of gorp and
  \<open>Rollback\<close> of this package) is not among the source files. A transaction works on
  its own copy of the tables; committing publishes the copy, and a commit the driver
  fails publishes nothing; rolling back drops the copy and returns the precipitating
  error unchanged.
\<close>

definition Begin :: "DbMap \<Rightarrow> error + Transaction" where
  "Begin m =
     (case next_fault (faults m) of
        (failed, fs) \<Rightarrow> if failed then Inl DriverError else Inr \<lparr>db = db m, faults = fs\<rparr>)"

definition Commit :: "Transaction \<Rightarrow> DbMap \<Rightarrow> error option \<times> database" where
  "Commit tx m =
     (case next_fault (faults tx) of
        (failed, fs) \<Rightarrow> if failed then (Some DriverError, db m) else (None, db tx))"

definition Rollback :: "Transaction \<Rightarrow> error \<Rightarrow> error" where
  "Rollback tx err = err"

subsection \<open>The statements\<close>

text \<open>
  The columns of an authorization row: the challenges are rows of their own table.
\<close>

definition authz_row :: "Authorization \<Rightarrow> authzModel" where
  "authz_row a = a\<lparr>authz_Challenges := []\<rparr>"

definition pending_row :: "Authorization \<Rightarrow> pendingauthzModel" where
  "pending_row a = \<lparr>pa_Authorization = authz_row a, pa_LockCol = 0\<rparr>"

definition insert_authz :: "Authorization \<Rightarrow> database \<Rightarrow> error + database" where
  "insert_authz a d =
     (if authz_ID a \<in> set (map authz_ID (authz d)) then Inl DuplicateEntry
      else Inr (d\<lparr>authz := authz d @ [authz_row a]\<rparr>))"

definition update_authz :: "Authorization \<Rightarrow> database \<Rightarrow> error + database" where
  "update_authz a d =
     Inr (d\<lparr>authz := map (\<lambda>r. if authz_ID r = authz_ID a then authz_row a else r) (authz d)\<rparr>)"

definition update_pending :: "Authorization \<Rightarrow> database \<Rightarrow> error + database" where
  "update_pending a d =
     Inr (d\<lparr>pendingAuthorizations :=
            map (\<lambda>r. if authz_ID (pa_Authorization r) = authz_ID a then pending_row a else r)
              (pendingAuthorizations d)\<rparr>)"

definition delete_pending :: "Authorization \<Rightarrow> database \<Rightarrow> error + database" where
  "delete_pending a d =
     Inr (d\<lparr>pendingAuthorizations :=
            filter (\<lambda>r. authz_ID (pa_Authorization r) \<noteq> authz_ID a) (pendingAuthorizations d)\<rparr>)"

text \<open>\<open>SELECT ... FROM <table> WHERE id = ?\<close> on one of the two authorization tables.\<close>

definition select_authz_by_id :: "string \<Rightarrow> string \<Rightarrow> database \<Rightarrow> error + Authorization option" where
  "select_authz_by_id table ident d =
     (if table = ''authz'' then Inr (find (\<lambda>r. authz_ID r = ident) (authz d))
      else if table = ''pendingAuthorizations''
        then Inr (find (\<lambda>r. authz_ID r = ident) (map pa_Authorization (pendingAuthorizations d)))
      else Inl (NoSuchTable table))"



text \<open>\<open>getChallengesQuery\<close>: the challenge rows of one authorization, in id order.\<close>

definition select_challenges :: "string \<Rightarrow> database \<Rightarrow> error + challModel list" where
  "select_challenges authID d = Inr (filter (\<lambda>c. cm_AuthorizationID c = authID) (challenges d))"

definition update_chall :: "challModel \<Rightarrow> database \<Rightarrow> error + database" where
  "update_chall c d =
     Inr (d\<lparr>challenges := map (\<lambda>r. if cm_ID r = cm_ID c then c else r) (challenges d)\<rparr>)"

text \<open>The challenge id is the auto-increment key: the insert returns the row with its id.\<close>

definition next_chall_ID :: "challModel list \<Rightarrow> int" where
  "next_chall_ID rows = fold max (map cm_ID rows) 0 + 1"

definition insert_chall :: "challModel \<Rightarrow> database \<Rightarrow> error + challModel \<times> database" where
  "insert_chall c d =
     (let row = c\<lparr>cm_ID := next_chall_ID (challenges d)\<rparr>
      in Inr (row, d\<lparr>challenges := challenges d @ [row]\<rparr>))"

definition insert_certificate :: "Certificate \<Rightarrow> database \<Rightarrow> error + database" where
  "insert_certificate c d =
     (if cert_Serial c \<in> set (map cert_Serial (certificates d)) then Inl DuplicateEntry
      else Inr (d\<lparr>certificates := certificates d @ [c]\<rparr>))"

definition insert_certificateStatus :: "CertificateStatus \<Rightarrow> database \<Rightarrow> error + database" where
  "insert_certificateStatus c d =
     (if cs_Serial c \<in> set (map cs_Serial (certificateStatus d)) then Inl DuplicateEntry
      else Inr (d\<lparr>certificateStatus := certificateStatus d @ [c]\<rparr>))"

text \<open>
  \<open>INSERT INTO issuedNames (...) VALUES (?, ?, ?), ...\<close>: with no row the text after
  \<open>VALUES\<close> is empty, which the SQL parser rejects.
\<close>

definition insert_issuedNames :: "issuedName list \<Rightarrow> database \<Rightarrow> error + database" where
  "insert_issuedNames rows d =
     (if rows = [] then Inl SQLSyntaxError
      else Inr (d\<lparr>issuedNames := issuedNames d @ rows\<rparr>))"

definition insert_fqdnSet :: "FQDNSet \<Rightarrow> database \<Rightarrow> error + database" where
  "insert_fqdnSet f d = Inr (d\<lparr>fqdnSets := fqdnSets d @ [f]\<rparr>)"

section \<open>Authorization Store\<close>

text \<open>
  Modelled from the spec: sa/authz.go and sa/model.go are not among the source files.
  \<open>authorizationTables\<close> names the two storage locations, under the names sa.go compares
  a location tag with; \<open>statusIsPending\<close> tells whether a status is pending; \<open>getAuthz\<close>
  is the tagged lookup, returning the stored record and the table that holds it, or
  NotFound when neither table has the id; \<open>authzIdExists\<close> tells whether a record with the
  id exists in either storage location; \<open>challengeToModel\<close> and \<open>modelToChallenge\<close>
  convert between a challenge and its row.
\<close>

definition authorizationTables :: "string list" where
  "authorizationTables = [''authz'', ''pendingAuthorizations'']"

definition statusIsPending :: "AcmeStatus \<Rightarrow> bool" where
  "statusIsPending status = (status = StatusPending)"

fun getAuthz_tables ::
  "string list \<Rightarrow> Transaction \<Rightarrow> string \<Rightarrow> error + (Authorization \<times> string) \<times> Transaction" where
  "getAuthz_tables [] tx ident = Inl NotFound"
| "getAuthz_tables (table # tables) tx ident =
     (case Query tx (select_authz_by_id table ident) of
        Inl err \<Rightarrow> Inl err
      | Inr (found, tx') \<Rightarrow>
          (case found of
             Some a \<Rightarrow> Inr ((a, table), tx')
           | None \<Rightarrow> getAuthz_tables tables tx' ident))"

definition getAuthz ::
  "Transaction \<Rightarrow> string \<Rightarrow> error + (Authorization \<times> string) \<times> Transaction" where
  "getAuthz tx ident = getAuthz_tables authorizationTables tx ident"

definition authzIdExists :: "Transaction \<Rightarrow> string \<Rightarrow> bool" where
  "authzIdExists tx ident =
     (ident \<in> set (map authz_ID (authz (db tx))) \<or>
      ident \<in> set (map (\<lambda>r. authz_ID (pa_Authorization r)) (pendingAuthorizations (db tx))))"

definition challengeToModel :: "Challenge \<Rightarrow> string \<Rightarrow> challModel" where
  "challengeToModel c authID =
     \<lparr>cm_ID = chall_ID c, cm_AuthorizationID = authID, cm_Type = chall_Type c,
      cm_Status = chall_Status c, cm_Token = chall_Token c\<rparr>"

definition modelToChallenge :: "challModel \<Rightarrow> Challenge" where
  "modelToChallenge cm =
     \<lparr>chall_ID = cm_ID cm, chall_Type = cm_Type cm, chall_Status = cm_Status cm,
      chall_Token = cm_Token cm\<rparr>"

text \<open>The loop of \<open>updateChallenges\<close> over the supplied challenges and the stored rows.\<close>

fun updateChallenges_rows :: "(Challenge \<times> challModel) list \<Rightarrow> Transaction \<Rightarrow> error + Transaction" where
  "updateChallenges_rows [] tx = Inr tx"
| "updateChallenges_rows ((authChall, stored) # rest) tx =
     (let chall = challengeToModel authChall (cm_AuthorizationID stored);
          chall = chall\<lparr>cm_ID := cm_ID stored\<rparr>
      in case Exec tx (update_chall chall) of
           Inl err \<Rightarrow> Inl err
         | Inr tx' \<Rightarrow> updateChallenges_rows rest tx')"

definition updateChallenges :: "string \<Rightarrow> Challenge list \<Rightarrow> Transaction \<Rightarrow> error + Transaction" where
  "updateChallenges authID challs0 tx =
     (case Query tx (select_challenges authID) of
        Inl err \<Rightarrow> Inl err
      | Inr (challs, tx') \<Rightarrow>
          if length challs \<noteq> length challs0
          then Inl (ErrorString ''Invalid number of challenges provided'')
          else updateChallenges_rows (zip challs0 challs) tx')"

text \<open>
  \<open>core.NewToken\<close> draws from a supply of random tokens. The loop of
  \<open>NewPendingAuthorization\<close> draws until a token is no existing id; \<open>None\<close> says that the
  supply ran out before the loop ended.
\<close>

fun newAuthzID :: "Transaction \<Rightarrow> string list \<Rightarrow> string option" where
  "newAuthzID tx [] = None"
| "newAuthzID tx (token # tokens) =
     (if authzIdExists tx token then newAuthzID tx tokens else Some token)"

text \<open>
  The loop over \<open>authz.Challenges\<close> in \<open>NewPendingAuthorization\<close>: the challenges
  already stored are accumulated in \<open>done\<close>.
\<close>

fun insertChallenges ::
  "string \<Rightarrow> Challenge list \<Rightarrow> Challenge list \<Rightarrow> Transaction \<Rightarrow> error + Challenge list \<times> Transaction" where
  "insertChallenges authID [] done tx = Inr (done, tx)"
| "insertChallenges authID (c # cs) done tx =
     (case ExecReturning tx (insert_chall (challengeToModel c authID)) of
        Inl err \<Rightarrow> Inl err
      | Inr (challModel, tx') \<Rightarrow>
          insertChallenges authID cs (done @ [modelToChallenge challModel]) tx')"

definition NewPendingAuthorization ::
  "SQLStorageAuthority \<Rightarrow> string list \<Rightarrow> Authorization \<Rightarrow> ((error + Authorization) \<times> database) option" where
  "NewPendingAuthorization ssa tokens authz0 =
     (let committed = db (dbMap ssa) in
      case Begin (dbMap ssa) of
        Inl err \<Rightarrow> Some (Inl err, committed)
      | Inr tx \<Rightarrow>
          (case newAuthzID tx tokens of
             None \<Rightarrow> None
           | Some ident \<Rightarrow>
               (let authz1 = authz0\<lparr>authz_ID := ident, authz_Status := StatusPending\<rparr>;
                    pendingAuthz = authz1
                in case Exec tx (insert_authz pendingAuthz) of
                     Inl err \<Rightarrow> Some (Inl (Rollback tx err), committed)
                   | Inr tx1 \<Rightarrow>
                       (case insertChallenges (authz_ID pendingAuthz) (authz_Challenges authz1) [] tx1 of
                          Inl err \<Rightarrow> Some (Inl (Rollback tx1 err), committed)
                        | Inr (challs, tx2) \<Rightarrow>
                            (case Commit tx2 (dbMap ssa) of
                               (Some err, d) \<Rightarrow> Some (Inl err, d)
                             | (None, d) \<Rightarrow>
                                 Some (Inr (pendingAuthz\<lparr>authz_Challenges := challs\<rparr>), d))))))"

definition UpdatePendingAuthorization ::
  "SQLStorageAuthority \<Rightarrow> Authorization \<Rightarrow> error option \<times> database" where
  "UpdatePendingAuthorization ssa authz0 =
     (let committed = db (dbMap ssa) in
      case Begin (dbMap ssa) of
        Inl err \<Rightarrow> (Some err, committed)
      | Inr tx \<Rightarrow>
          if \<not> statusIsPending (authz_Status authz0) then
            (Some (Rollback tx (ErrorString ''Use FinalizeAuthorization() to update to a final status'')),
             committed)
          else
            (case getAuthz tx (authz_ID authz0) of
               Inl err \<Rightarrow> (Some (Rollback tx err), committed)
             | Inr ((dbAuthz, table), tx1) \<Rightarrow>
                 if \<not> statusIsPending (authz_Status dbAuthz) then
                   (Some (Rollback tx1 (ErrorString ''Cannot update a non-pending authorization'')),
                    committed)
                 else
                   (case (if table = ''pendingAuthorization'' then Inr (update_pending authz0)
                          else if table = ''authz'' then Inr (update_authz authz0)
                          else Inl (ErrorString ''Internal error. Table mismatch updating authz'')) of
                      Inl err \<Rightarrow> (Some (Rollback tx1 err), committed)
                    | Inr updateAuth \<Rightarrow>
                        (case Exec tx1 updateAuth of
                           Inl err \<Rightarrow> (Some (Rollback tx1 err), committed)
                         | Inr tx2 \<Rightarrow>
                             (case updateChallenges (authz_ID authz0) (authz_Challenges authz0) tx2 of
                                Inl err \<Rightarrow> (Some (Rollback tx2 err), committed)
                              | Inr tx3 \<Rightarrow> Commit tx3 (dbMap ssa))))))"

definition FinalizeAuthorization ::
  "SQLStorageAuthority \<Rightarrow> Authorization \<Rightarrow> error option \<times> database" where
  "FinalizeAuthorization ssa authz0 =
     (let committed = db (dbMap ssa) in
      case Begin (dbMap ssa) of
        Inl err \<Rightarrow> (Some err, committed)
      | Inr tx \<Rightarrow>
          (case getAuthz tx (authz_ID authz0) of
             Inl err \<Rightarrow> (Some (Rollback tx err), committed)
           | Inr ((dbAuthz, table), tx1) \<Rightarrow>
               if \<not> statusIsPending (authz_Status dbAuthz) then
                 (Some (Rollback tx1 (ErrorString ''Cannot finalize an authorization that is not pending'')),
                  committed)
               else if statusIsPending (authz_Status authz0) then
                 (Some (Rollback tx1 (ErrorString ''Cannot finalize an authorization to a non-final status'')),
                  committed)
               else
                 (case (if table = ''pendingAuthorizations'' then
                          (case Exec tx1 (insert_authz authz0) of
                             Inl err \<Rightarrow> Inl err
                           | Inr tx2 \<Rightarrow> Exec tx2 (delete_pending dbAuthz))
                        else if table = ''authz'' then Exec tx1 (update_authz authz0)
                        else Inl (ErrorString ''Internal error finalizing authz from unknown table'')) of
                    Inl err \<Rightarrow> (Some (Rollback tx1 err), committed)
                  | Inr tx3 \<Rightarrow>
                      (case updateChallenges (authz_ID authz0) (authz_Challenges authz0) tx3 of
                         Inl err \<Rightarrow> (Some (Rollback tx3 err), committed)
                       | Inr tx4 \<Rightarrow> Commit tx4 (dbMap ssa)))))"


text \<open>
  The status the store holds for an id, read the way \<open>getAuthz\<close> reads it: the stored
  record of the first table that has the id.
\<close>

definition stored_status :: "database \<Rightarrow> string \<Rightarrow> AcmeStatus option" where
  "stored_status d ident =
     (case find (\<lambda>r. authz_ID r = ident) (authz d) of
        Some a \<Rightarrow> Some (authz_Status a)
      | None \<Rightarrow>
          (case find (\<lambda>r. authz_ID r = ident) (map pa_Authorization (pendingAuthorizations d)) of
             Some a \<Rightarrow> Some (authz_Status a)
           | None \<Rightarrow> None))"

definition stored_challenges :: "database \<Rightarrow> string \<Rightarrow> challModel list" where
  "stored_challenges d authID = filter (\<lambda>c. cm_AuthorizationID c = authID) (challenges d)"

section \<open>Issuance Ledger\<close>

definition addIssuedNames :: "collaborators \<Rightarrow> Transaction \<Rightarrow> x509_Certificate \<Rightarrow> error + Transaction" where
  "addIssuedNames ext tx cert =
     (let values = map (\<lambda>name. \<lparr>in_reversedName = ReverseName ext name,
                                 in_serial = SerialToString ext (x509_SerialNumber cert),
                                 in_notBefore = x509_NotBefore cert\<rparr>) (x509_DNSNames cert)
      in Exec tx (insert_issuedNames values))"

definition addFQDNSet ::
  "collaborators \<Rightarrow> Transaction \<Rightarrow> string list \<Rightarrow> string \<Rightarrow> time \<Rightarrow> time \<Rightarrow> error + Transaction" where
  "addFQDNSet ext tx names serial issued expires =
     Exec tx (insert_fqdnSet \<lparr>fs_SetHash = hashNames (sha256 ext) names, fs_Serial = serial,
                              fs_Issued = issued, fs_Expires = expires\<rparr>)"

definition AddCertificate ::
  "collaborators \<Rightarrow> SQLStorageAuthority \<Rightarrow> byte list \<Rightarrow> int \<Rightarrow> (string \<times> error option) \<times> database" where
  "AddCertificate ext ssa certDER regID =
     (let committed = db (dbMap ssa) in
      case ParseCertificate ext certDER of
        Inl msg \<Rightarrow> (([], Some (ParseError msg)), committed)
      | Inr parsedCertificate \<Rightarrow>
          (let digest = Fingerprint256 ext certDER;
               serial = SerialToString ext (x509_SerialNumber parsedCertificate);
               cert = \<lparr>cert_RegistrationID = regID, cert_Serial = serial, cert_Digest = digest,
                       cert_DER = certDER, cert_Issued = clk ssa,
                       cert_Expires = x509_NotAfter parsedCertificate\<rparr>;
               certStatus = \<lparr>cs_SubscriberApproved = False, cs_Status = OCSPStatusGood,
                             cs_OCSPLastUpdated = 0, cs_OCSPResponse = [], cs_Serial = serial,
                             cs_RevokedDate = 0, cs_RevokedReason = 0, cs_LockCol = 0\<rparr>
           in case Begin (dbMap ssa) of
                Inl err \<Rightarrow> ((digest, Some err), committed)
              | Inr tx \<Rightarrow>
                  (case Exec tx (insert_certificate cert) of
                     Inl err \<Rightarrow> ((digest, Some (Rollback tx err)), committed)
                   | Inr tx1 \<Rightarrow>
                       (case Exec tx1 (insert_certificateStatus certStatus) of
                          Inl err \<Rightarrow> ((digest, Some (Rollback tx1 err)), committed)
                        | Inr tx2 \<Rightarrow>
                            (case addIssuedNames ext tx2 parsedCertificate of
                               Inl err \<Rightarrow> ((digest, Some (Rollback tx2 err)), committed)
                             | Inr tx3 \<Rightarrow>
                                 (case addFQDNSet ext tx3 (x509_DNSNames parsedCertificate) serial
                                         (x509_NotBefore parsedCertificate)
                                         (x509_NotAfter parsedCertificate) of
                                    Inl err \<Rightarrow> ((digest, Some (Rollback tx3 err)), committed)
                                  | Inr tx4 \<Rightarrow>
                                      (case Commit tx4 (dbMap ssa) of
                                         (err, d) \<Rightarrow> ((digest, err), d))))))))"

section \<open>Policy Counters\<close>

text \<open>
  The query of \<open>countCertificatesByName\<close>: the serials of the issued-name rows whose
  reversed name is the reversed domain or lies under it and whose \<open>notBefore\<close> is in the
  window, at most \<open>limit\<close> of them.
\<close>

definition select_issuedNames :: "string \<Rightarrow> time \<Rightarrow> time \<Rightarrow> nat \<Rightarrow> database \<Rightarrow> error + string list" where
  "select_issuedNames reversedDomain earliest latest limit d =
     Inr (take limit
            (map in_serial
               (filter (\<lambda>r. (in_reversedName r = reversedDomain \<or>
                              take (length reversedDomain + 1) (in_reversedName r) = reversedDomain @ ''.'') \<and>
                             in_notBefore r > earliest \<and> in_notBefore r \<le> latest)
                  (issuedNames d))))"

definition countCertificatesByName ::
  "collaborators \<Rightarrow> SQLStorageAuthority \<Rightarrow> string \<Rightarrow> time \<Rightarrow> time \<Rightarrow> int \<times> error option" where
  "countCertificatesByName ext ssa domain earliest latest =
     (let count = (0 :: int);
          max = (10000 :: nat)
      in case Query (dbMap ssa)
                (select_issuedNames (ReverseName ext domain) earliest latest (max + 1)) of
           Inl err \<Rightarrow> if err = ErrNoRows then (0, None) else (- 1, Some err)
         | Inr (serials, m) \<Rightarrow>
             if count > int max then (int max, Some (TooManyCertificatesError domain))
             else (let serialMap = remdups serials in (int (length serialMap), None)))"

text \<open>
  The query of \<open>CountPendingAuthorizations\<close> on one table. \<open>pendingStatuses\<close>, a variable
  of sa/authz.go, is not among the source files and is a parameter.
\<close>

definition pending_match :: "int \<Rightarrow> time \<Rightarrow> AcmeStatus list \<Rightarrow> Authorization \<Rightarrow> bool" where
  "pending_match regID now statuses r =
     (authz_RegistrationID r = regID \<and>
      (case authz_Expires r of None \<Rightarrow> False | Some t \<Rightarrow> t > now) \<and>
      authz_Status r \<in> set statuses)"

definition count_pending :: "string \<Rightarrow> int \<Rightarrow> time \<Rightarrow> AcmeStatus list \<Rightarrow> database \<Rightarrow> error + int" where
  "count_pending table regID now statuses d =
     (if table = ''authz''
        then Inr (int (length (filter (pending_match regID now statuses) (authz d))))
      else if table = ''pendingAuthorizations''
        then Inr (int (length (filter (pending_match regID now statuses)
                                 (map pa_Authorization (pendingAuthorizations d)))))
      else Inl (NoSuchTable table))"

fun CountPendingAuthorizations_tables ::
  "string list \<Rightarrow> AcmeStatus list \<Rightarrow> DbMap \<Rightarrow> time \<Rightarrow> int \<Rightarrow> int \<Rightarrow> int \<times> error option" where
  "CountPendingAuthorizations_tables [] pendingStatuses m now regID count = (count, None)"
| "CountPendingAuthorizations_tables (table # tables) pendingStatuses m now regID count =
     (case Query m (count_pending table regID now pendingStatuses) of
        Inl err \<Rightarrow> (count, None)
      | Inr (tableCount, m') \<Rightarrow>
          CountPendingAuthorizations_tables tables pendingStatuses m' now regID (count + tableCount))"

definition CountPendingAuthorizations ::
  "AcmeStatus list \<Rightarrow> SQLStorageAuthority \<Rightarrow> int \<Rightarrow> int \<times> error option" where
  "CountPendingAuthorizations pendingStatuses ssa regID =
     CountPendingAuthorizations_tables authorizationTables pendingStatuses (dbMap ssa) (clk ssa) regID 0"

section \<open>Example stores\<close>

text \<open>
  A pending authorization with one challenge, held by the legacy table in
  \<open>legacy_store\<close> and by the unified table in \<open>unified_store\<close>; \<open>valid_store\<close> holds
  it in the unified table with status valid.
\<close>

definition ex_challenge :: Challenge where
  "ex_challenge =
     \<lparr>chall_ID = 1, chall_Type = ''http-01'', chall_Status = StatusValid, chall_Token = ''token''\<rparr>"

definition ex_authz :: Authorization where
  "ex_authz =
     \<lparr>authz_ID = ''id1'', authz_RegistrationID = 1, authz_Identifier = ''example.com'',
      authz_Status = StatusPending, authz_Expires = Some 100, authz_Challenges = [ex_challenge]\<rparr>"

definition ex_challModel :: challModel where
  "ex_challModel =
     \<lparr>cm_ID = 1, cm_AuthorizationID = ''id1'', cm_Type = ''http-01'', cm_Status = StatusPending,
      cm_Token = ''token''\<rparr>"

definition empty_store :: database where
  "empty_store =
     \<lparr>authz = [], pendingAuthorizations = [], challenges = [], certificates = [],
      certificateStatus = [], issuedNames = [], fqdnSets = []\<rparr>"

definition legacy_store :: database where
  "legacy_store =
     empty_store\<lparr>pendingAuthorizations := [pending_row ex_authz], challenges := [ex_challModel]\<rparr>"

definition unified_store :: database where
  "unified_store = empty_store\<lparr>authz := [authz_row ex_authz], challenges := [ex_challModel]\<rparr>"


definition ssa_on :: "database \<Rightarrow> bool list \<Rightarrow> SQLStorageAuthority" where
  "ssa_on d fs = \<lparr>dbMap = \<lparr>db = d, faults = fs\<rparr>, clk = 50\<rparr>"

text \<open>\<open>n\<close> issued-name rows of one reversed name, with \<open>n\<close> different serials.\<close>

definition many_issuedNames :: "string \<Rightarrow> nat \<Rightarrow> issuedName list" where
  "many_issuedNames reversedDomain n =
     map (\<lambda>i. \<lparr>in_reversedName = reversedDomain, in_serial = replicate (Suc i) (CHR ''1''),
                in_notBefore = 1\<rparr>) [0..<n]"

definition ex_collaborators :: collaborators where
  "ex_collaborators =
     \<lparr>ParseCertificate = (\<lambda>der. if der = [] then Inl ''asn1: syntax error''
                                 else Inr \<lparr>x509_SerialNumber = 7, x509_NotBefore = 10,
                                           x509_NotAfter = 90,
                                           x509_DNSNames = [''a.example.com'', ''B.example.com'']\<rparr>),
      Fingerprint256 = (\<lambda>der. ''digest''),
      SerialToString = (\<lambda>n. if n = 7 then ''07'' else ''00''),
      ReverseName = (\<lambda>name. name),
      sha256 = (\<lambda>s. s)\<rparr>"

section \<open>Range Codec: the range of an address\<close>

lemma SetBytes_snoc: "SetBytes (xs @ [b]) = SetBytes xs * 256 + unat b"
  by (simp add: SetBytes_def)

lemma SetBytes_append: "SetBytes (xs @ ys) = SetBytes xs * 256 ^ length ys + SetBytes ys"
proof (induction ys rule: rev_induct)
  case Nil
  then show ?case by (simp add: SetBytes_def)
next
  case (snoc y ys)
  have "SetBytes (xs @ ys @ [y]) = SetBytes ((xs @ ys) @ [y])" by simp
  also have "\<dots> = SetBytes (xs @ ys) * 256 + unat y" by (rule SetBytes_snoc)
  finally show ?case using snoc by (simp add: SetBytes_snoc algebra_simps)
qed

lemma unat_byte_less: "unat (b :: byte) < 256"
  using unsigned_less [of b, where ?'a = nat] by simp

lemma SetBytes_bound: "SetBytes xs < 256 ^ length xs"
proof (induction xs rule: rev_induct)
  case Nil
  then show ?case by (simp add: SetBytes_def)
next
  case (snoc x xs)
  have "unat x < 256" by (rule unat_byte_less)
  with snoc show ?case by (simp add: SetBytes_snoc)
qed

lemma SetBytes_zeros: "SetBytes (replicate k 0) = 0"
proof (induction k)
  case 0
  then show ?case by (simp add: SetBytes_def)
next
  case (Suc k)
  have "replicate (Suc k) (0 :: byte) = replicate k 0 @ [0]"
    by (simp add: replicate_append_same)
  with Suc show ?case by (simp only: SetBytes_snoc) simp
qed

lemma SetBytes_Bytes: "SetBytes (Bytes n) = n"
proof (induction n rule: Bytes.induct)
  case (1 n)
  show ?case
  proof (cases "n = 0")
    case True
    then show ?thesis by (simp add: Bytes.simps SetBytes_def)
  next
    case False
    have "unat (of_nat (n mod 256) :: byte) = n mod 256"
      by (simp add: unat_of_nat)
    with False 1 show ?thesis
      by (subst Bytes.simps) (simp add: SetBytes_snoc)
  qed
qed

lemma length_Bytes_le: "length (Bytes n) \<le> k \<longleftrightarrow> n < 256 ^ k"
proof (induction n arbitrary: k rule: Bytes.induct)
  case (1 n)
  show ?case
  proof (cases "n = 0")
    case True
    then show ?thesis by (simp add: Bytes.simps)
  next
    case False
    show ?thesis
    proof (cases k)
      case 0
      with False show ?thesis by (subst Bytes.simps) simp
    next
      case (Suc j)
      have "length (Bytes n) = Suc (length (Bytes (n div 256)))"
        using False by (subst Bytes.simps) simp
      moreover have "n div 256 < 256 ^ j \<longleftrightarrow> n < 256 ^ Suc j"
        by (simp add: less_mult_imp_div_less div_less_iff_less_mult mult.commute)
      ultimately show ?thesis using 1 [OF False, of j] Suc by simp
    qed
  qed
qed

lemma CIDRMask_loop_numeral:
  "CIDRMask_loop (numeral k) n =
     (if n \<ge> 8 then 0xff # CIDRMask_loop (pred_numeral k) (n - 8)
      else (NOT (drop_bit n (0xff :: byte))) # CIDRMask_loop (pred_numeral k) 0)"
  by (simp add: numeral_eq_Suc)

lemma CIDRMask_loop_zeros: "CIDRMask_loop l 0 = replicate l 0"
  by (induction l) simp_all

lemma replicate_num: "replicate (numeral k) x = x # replicate (pred_numeral k) x"
  by (simp add: numeral_eq_Suc)

lemma CIDRMask_48: "CIDRMask 48 128 = replicate 6 0xff @ replicate 10 0"
  by (simp add: CIDRMask_def CIDRMask_loop_numeral CIDRMask_loop_zeros replicate_num)

lemma CIDRMask_128: "CIDRMask 128 128 = replicate 16 0xff"
  by (simp add: CIDRMask_def CIDRMask_loop_numeral CIDRMask_loop_zeros replicate_num)

lemma zip_and_replicate:
  "map (\<lambda>(a, m). a AND m) (zip xs (replicate (length xs) c)) = map (\<lambda>a. a AND c) xs"
  by (induction xs) simp_all

lemma byte_and_ff: "(a :: byte) AND 0xff = a"
proof -
  have "(0xff :: byte) = - 1" by simp
  then show ?thesis by (simp only: and.right_neutral)
qed

lemma Mask_128: "length ip = 16 \<Longrightarrow> Mask ip (replicate 16 0xff) = ip"
proof -
  assume l: "length ip = 16"
  have "map (\<lambda>(a, m). a AND m) (zip ip (replicate (length ip) 0xff)) = map (\<lambda>a. a AND 0xff) ip"
    by (rule zip_and_replicate)
  also have "\<dots> = ip" by (simp add: byte_and_ff)
  finally show ?thesis using l by (simp add: Mask_def)
qed

lemma Mask_48:
  assumes l: "length ip = 16"
  shows "Mask ip (replicate 6 0xff @ replicate 10 0) = take 6 ip @ replicate 10 0"
proof -
  let ?f = "\<lambda>(a :: byte, m). a AND m"
  have l6: "length (take 6 ip) = 6" and l10: "length (drop 6 ip) = 10" using l by simp_all
  have "zip ip (replicate 6 (0xff :: byte) @ replicate 10 0)
        = zip (take 6 ip) (replicate 6 0xff) @ zip (drop 6 ip) (replicate 10 0)"
    using zip_append [of "take 6 ip" "replicate 6 0xff" "drop 6 ip" "replicate 10 0"] l6
    by simp
  moreover have "map ?f (zip (take 6 ip) (replicate 6 0xff)) = take 6 ip"
    using zip_and_replicate [of "take 6 ip" "0xff"] l6 by (simp add: byte_and_ff)
  moreover have "map ?f (zip (drop 6 ip) (replicate 10 0)) = replicate 10 0"
    using zip_and_replicate [of "drop 6 ip" 0] l10 by (simp add: map_replicate_const)
  ultimately show ?thesis using l by (simp add: Mask_def)
qed

lemma length_Bytes_gt16: "16 < length (Bytes n) \<longleftrightarrow> \<not> n < 2 ^ 128"
proof -
  have "(256 :: nat) ^ 16 = 2 ^ 128" by simp
  then have "length (Bytes n) \<le> 16 \<longleftrightarrow> n < 2 ^ 128"
    using length_Bytes_le [of n 16] by (simp only:)
  then show ?thesis by (simp only: not_le [symmetric])
qed

lemma incrementIP_val:
  "incrementIP ip index =
     (if SetBytes ip + 2 ^ (128 - index) < 2 ^ 128
      then replicate (16 - length (Bytes (SetBytes ip + 2 ^ (128 - index)))) 0
           @ Bytes (SetBytes ip + 2 ^ (128 - index))
      else replicate 16 0xff)"
  unfolding incrementIP_def Let_def push_bit_of_1 length_Bytes_gt16
  by (cases "SetBytes ip + 2 ^ (128 - index) < 2 ^ 128")
     (simp_all only: if_True if_False not_True_eq_False not_False_eq_True)

lemma incrementIP_in_range:
  assumes "SetBytes ip + 2 ^ (128 - index) < 2 ^ 128"
  shows "length (incrementIP ip index) = 16"
    and "SetBytes (incrementIP ip index) = SetBytes ip + 2 ^ (128 - index)"
proof -
  let ?n = "SetBytes ip + 2 ^ (128 - index)"
  have le: "length (Bytes ?n) \<le> 16"
    using length_Bytes_gt16 [of ?n] assms by (simp only: not_less [symmetric]) simp
  have eq: "incrementIP ip index = replicate (16 - length (Bytes ?n)) 0 @ Bytes ?n"
    using assms by (simp only: incrementIP_val if_True)
  show "length (incrementIP ip index) = 16" using le by (simp only: eq) simp
  show "SetBytes (incrementIP ip index) = ?n"
    by (simp only: eq SetBytes_append SetBytes_zeros SetBytes_Bytes)
qed

lemma To4_To16_len4: "length ip = 4 \<Longrightarrow> To4 (To16 ip) \<noteq> []"
  by (simp add: To16_def To4_def IPv4_def replicate_num)

lemma length_To16: "length ip = 4 \<or> length ip = 16 \<Longrightarrow> length (To16 ip) = 16"
  by (auto simp add: To16_def IPv4_def)

lemma To4_small:
  assumes l: "length ip = 16" and v4: "To4 ip \<noteq> []"
  shows "SetBytes ip < 2 ^ 48"
proof -
  have z: "take 10 ip = replicate 10 0" using l v4 by (simp add: To4_def split: if_splits)
  have "SetBytes ip = SetBytes (take 10 ip @ drop 10 ip)" by simp
  also have "\<dots> = SetBytes (drop 10 ip)"
    by (simp only: SetBytes_append z SetBytes_zeros, simp?)
  finally have "SetBytes ip = SetBytes (drop 10 ip)" .
  moreover have "SetBytes (drop 10 ip) < 256 ^ 6"
    using SetBytes_bound [of "drop 10 ip"] l by simp
  moreover have "(256 :: nat) ^ 6 = 2 ^ 48" by simp
  ultimately show ?thesis by simp
qed

lemma SetBytes_mask48:
  assumes l: "length ip = 16"
  shows "SetBytes (take 6 ip @ replicate 10 0) = (SetBytes ip div 2 ^ 80) * 2 ^ 80"
proof -
  have p: "(256 :: nat) ^ 10 = 2 ^ 80" by simp
  have l10: "length (drop 6 ip) = 10" using l by simp
  have "SetBytes ip = SetBytes (take 6 ip @ drop 6 ip)" by simp
  also have "\<dots> = SetBytes (take 6 ip) * 256 ^ 10 + SetBytes (drop 6 ip)"
    by (simp only: SetBytes_append l10)
  finally have e: "SetBytes ip = SetBytes (take 6 ip) * 2 ^ 80 + SetBytes (drop 6 ip)"
    by (simp only: p)
  have b: "SetBytes (drop 6 ip) < 2 ^ 80"
    using SetBytes_bound [of "drop 6 ip"] by (simp only: l10 p)
  have "SetBytes ip div 2 ^ 80 = SetBytes (take 6 ip)"
    using b by (simp only: e, simp?)
  moreover have "SetBytes (take 6 ip @ replicate 10 0) = SetBytes (take 6 ip) * 2 ^ 80"
    by (simp only: SetBytes_append SetBytes_zeros length_replicate p, simp?)
  ultimately show ?thesis by (simp only:)
qed

text \<open>
  C8. An address is IPv4 when \<open>To4\<close> of its 16-byte form is not nil. For an IPv4 address
  the range begins at the address (in its 16-byte form) and ends at the address plus one.
  For any other 16-byte address the range begins at the address with all but its leading
  48 bits cleared, and ends \<open>2 ^ 80\<close> above that; when that sum is no 128-bit value
  the end is the highest address, all bits set, and nothing wraps around.
\<close>

theorem ipRange_spec:
  assumes len: "length ip = 4 \<or> length ip = 16"
  shows "(To4 (To16 ip) \<noteq> [] \<longrightarrow>
            fst (ipRange ip) = To16 ip \<and>
            length (snd (ipRange ip)) = 16 \<and>
            SetBytes (snd (ipRange ip)) = SetBytes (To16 ip) + 1) \<and>
         (To4 (To16 ip) = [] \<longrightarrow>
            fst (ipRange ip) = take 6 ip @ replicate 10 0 \<and>
            SetBytes (fst (ipRange ip)) = (SetBytes ip div 2 ^ 80) * 2 ^ 80 \<and>
            (if SetBytes (fst (ipRange ip)) + 2 ^ 80 < 2 ^ 128
             then length (snd (ipRange ip)) = 16 \<and>
                  SetBytes (snd (ipRange ip)) = SetBytes (fst (ipRange ip)) + 2 ^ 80
             else snd (ipRange ip) = replicate 16 0xff))"
proof (intro conjI impI)
  have l16: "length (To16 ip) = 16" using len by (rule length_To16)
  {
    assume v4: "To4 (To16 ip) \<noteq> []"
    have m: "Mask (To16 ip) (CIDRMask 128 128) = To16 ip"
      using l16 by (simp only: CIDRMask_128 Mask_128)
    have r: "ipRange ip = (To16 ip, incrementIP (To16 ip) 128)"
      using v4 by (simp only: ipRange_def Let_def if_True m not_False_eq_True)
    have "SetBytes (To16 ip) < 2 ^ 48" using l16 v4 by (rule To4_small)
    moreover have "(2 :: nat) ^ 48 + 1 < 2 ^ 128" by simp
    ultimately have inr: "SetBytes (To16 ip) + 2 ^ (128 - 128) < 2 ^ 128" by simp
    show "fst (ipRange ip) = To16 ip" by (simp only: r fst_conv)
    show "length (snd (ipRange ip)) = 16"
      using incrementIP_in_range(1) [OF inr] by (simp only: r snd_conv)
    show "SetBytes (snd (ipRange ip)) = SetBytes (To16 ip) + 1"
      using incrementIP_in_range(2) [OF inr] by (simp only: r snd_conv, simp?)
  }
  {
    assume v6: "To4 (To16 ip) = []"
    have l: "length ip = 16" using len v6 To4_To16_len4 [of ip] by auto
    then have t: "To16 ip = ip" by (simp add: To16_def)
    let ?b = "take 6 ip @ replicate 10 0"
    have m: "Mask ip (CIDRMask 48 128) = ?b"
      using l by (simp only: CIDRMask_48 Mask_48)
    have v6': "To4 ip = []" using v6 by (simp only: t)
    have r: "ipRange ip = (?b, incrementIP ?b 48)"
      using m by (simp add: ipRange_def Let_def t v6')
    show "fst (ipRange ip) = ?b" by (simp only: r fst_conv)
    show "SetBytes (fst (ipRange ip)) = (SetBytes ip div 2 ^ 80) * 2 ^ 80"
      using SetBytes_mask48 [OF l] by (simp only: r fst_conv)
    show "if SetBytes (fst (ipRange ip)) + 2 ^ 80 < 2 ^ 128
          then length (snd (ipRange ip)) = 16 \<and>
               SetBytes (snd (ipRange ip)) = SetBytes (fst (ipRange ip)) + 2 ^ 80
          else snd (ipRange ip) = replicate 16 0xff"
    proof (cases "SetBytes ?b + 2 ^ 80 < 2 ^ 128")
      case True
      have e: "(128 :: nat) - 48 = 80" by simp
      from True have inr: "SetBytes ?b + 2 ^ (128 - 48) < 2 ^ 128" by (simp only: e)
      show ?thesis
        using True incrementIP_in_range(1) [OF inr] incrementIP_in_range(2) [OF inr]
        by (simp only: r fst_conv snd_conv e if_True, simp?)
    next
      case False
      have e: "(128 :: nat) - 48 = 80" by simp
      from False have "incrementIP ?b 48 = replicate 16 0xff"
        by (simp only: incrementIP_val e if_False)
      with False show ?thesis by (simp only: r fst_conv snd_conv if_False)
    qed
  }
qed

theorem ipRange_spec_witness:
  "(length [1, 2, 3, 4 :: byte] = 4 \<or> length [1, 2, 3, 4 :: byte] = 16) \<and>
   To4 (To16 [1, 2, 3, 4]) \<noteq> [] \<and>
   fst (ipRange [1, 2, 3, 4]) = To16 [1, 2, 3, 4] \<and>
   length (snd (ipRange [1, 2, 3, 4])) = 16 \<and>
   SetBytes (snd (ipRange [1, 2, 3, 4])) = SetBytes (To16 [1, 2, 3, 4]) + 1 \<and>
   To4 (To16 (replicate 16 (0xff :: byte))) = [] \<and>
   fst (ipRange (replicate 16 0xff)) = replicate 6 0xff @ replicate 10 0 \<and>
   snd (ipRange (replicate 16 0xff)) = replicate 16 0xff"
proof -
  have h4: "length [1, 2, 3, 4 :: byte] = 4 \<or> length [1, 2, 3, 4 :: byte] = 16" by simp
  have v4: "To4 (To16 [1, 2, 3, 4]) \<noteq> []" by (rule To4_To16_len4) simp
  have h6: "length (replicate 16 (0xff :: byte)) = 4 \<or> length (replicate 16 (0xff :: byte)) = 16"
    by simp
  have v6: "To4 (To16 (replicate 16 (0xff :: byte))) = []"
    by (simp add: To16_def To4_def replicate_num)
  have big: "\<not> SetBytes (replicate 6 (0xff :: byte) @ replicate 10 0) + 2 ^ 80 < 2 ^ 128"
    by (simp add: SetBytes_def replicate_num)
  have t6: "take 6 (replicate 16 (0xff :: byte)) = replicate 6 0xff" by simp
  from ipRange_spec [OF h4] v4 have p4:
    "fst (ipRange [1, 2, 3, 4]) = To16 [1, 2, 3, 4] \<and>
     length (snd (ipRange [1, 2, 3, 4])) = 16 \<and>
     SetBytes (snd (ipRange [1, 2, 3, 4])) = SetBytes (To16 [1, 2, 3, 4]) + 1"
    by blast
  from ipRange_spec [OF h6] v6 have p6:
    "fst (ipRange (replicate 16 0xff)) = take 6 (replicate 16 0xff) @ replicate 10 0 \<and>
     (if SetBytes (fst (ipRange (replicate 16 0xff))) + 2 ^ 80 < 2 ^ 128
      then length (snd (ipRange (replicate 16 0xff))) = 16 \<and>
           SetBytes (snd (ipRange (replicate 16 0xff)))
             = SetBytes (fst (ipRange (replicate 16 0xff))) + 2 ^ 80
      else snd (ipRange (replicate 16 0xff)) = replicate 16 0xff)"
    by blast
  then have f6: "fst (ipRange (replicate 16 0xff)) = replicate 6 0xff @ replicate 10 0"
    by (simp only: t6)
  from p6 big have s6: "snd (ipRange (replicate 16 0xff)) = replicate 16 0xff"
    by (simp only: f6 if_False)
  show ?thesis using h4 v4 p4 v6 f6 s6 by blast
qed

section \<open>Name-Set Digest: one digest per set of names\<close>

lemma sort_remdups_set: "sort (remdups xs) = sorted_list_of_set (set xs)"
  by (rule sorted_list_of_set_sort_remdups [symmetric])

text \<open>
  C9. Two name lists that give the same set of names once every name is lower-cased
  (whatever their order, letter case and repetitions) have the same digest.
\<close>

theorem hashNames_same_set:
  assumes "set (map ToLower L1) = set (map ToLower L2)"
  shows "hashNames sha L1 = hashNames sha L2"
proof -
  have "UniqueLowerNames L1 = sorted_list_of_set (set (map ToLower L1))"
    by (simp only: UniqueLowerNames_def sort_remdups_set)
  also have "\<dots> = sorted_list_of_set (set (map ToLower L2))"
    by (simp only: assms)
  also have "\<dots> = UniqueLowerNames L2"
    by (simp only: UniqueLowerNames_def sort_remdups_set)
  finally show ?thesis
    by (simp only: hashNames_def Let_def)
qed

theorem hashNames_same_set_witness:
  "set (map ToLower [''a.example.com'', ''A.EXAMPLE.COM'', ''b.example.com''])
     = set (map ToLower [''b.example.com'', ''a.example.com'']) \<and>
   hashNames (\<lambda>s. s) [''a.example.com'', ''A.EXAMPLE.COM'', ''b.example.com'']
     = hashNames (\<lambda>s. s) [''b.example.com'', ''a.example.com''] \<and>
   hashNames (\<lambda>s. s) [''b.example.com'', ''a.example.com''] = ''a.example.com,b.example.com''"
proof -
  have h: "set (map ToLower [''a.example.com'', ''A.EXAMPLE.COM'', ''b.example.com''])
     = set (map ToLower [''b.example.com'', ''a.example.com''])"
    by (simp add: ToLower_def ToLower_char_def insert_commute)
  have v: "hashNames (\<lambda>s. s) [''b.example.com'', ''a.example.com''] = ''a.example.com,b.example.com''"
    by (simp add: hashNames_def UniqueLowerNames_def ToLower_def ToLower_char_def)
  show ?thesis using h hashNames_same_set [OF h, of "\<lambda>s. s"] v by blast
qed

section \<open>Policy Counters\<close>

lemma Query_fault: "Query \<lparr>db = d, faults = True # fs\<rparr> q = Inl DriverError"
  by (simp add: Query_def next_fault_def)

lemma Query_ok:
  "Query \<lparr>db = d, faults = False # fs\<rparr> q =
     (case q d of Inl err \<Rightarrow> Inl err | Inr rows \<Rightarrow> Inr (rows, \<lparr>db = d, faults = fs\<rparr>))"
  by (simp add: Query_def next_fault_def split: sum.splits)

lemma Query_nofault:
  "Query \<lparr>db = d, faults = []\<rparr> q =
     (case q d of Inl err \<Rightarrow> Inl err | Inr rows \<Rightarrow> Inr (rows, \<lparr>db = d, faults = []\<rparr>))"
  by (simp add: Query_def next_fault_def split: sum.splits)

lemma CountPending_tables_no_error:
  "snd (CountPendingAuthorizations_tables tables ps m now regID count) = None"
  by (induction tables arbitrary: m count) (simp_all split: sum.splits prod.splits)

text \<open>
  C10. \<open>CountPendingAuthorizations\<close> never returns an error. When the count query on the
  first table fails it returns 0, and when the query on the second table fails it returns
  the count of the first table alone, each time with a nil error: the same answer as a run
  without any failure on a store whose second table is empty.
\<close>

theorem CountPendingAuthorizations_never_fails:
  "snd (CountPendingAuthorizations ps ssa regID) = None \<and>
   CountPendingAuthorizations ps \<lparr>dbMap = \<lparr>db = d, faults = True # fs\<rparr>, clk = now\<rparr> regID = (0, None) \<and>
   CountPendingAuthorizations ps \<lparr>dbMap = \<lparr>db = d, faults = False # True # fs\<rparr>, clk = now\<rparr> regID
     = (int (length (filter (pending_match regID now ps) (authz d))), None) \<and>
   CountPendingAuthorizations ps \<lparr>dbMap = \<lparr>db = d\<lparr>pendingAuthorizations := []\<rparr>, faults = []\<rparr>, clk = now\<rparr> regID
     = (int (length (filter (pending_match regID now ps) (authz d))), None)"
proof (intro conjI)
  show "snd (CountPendingAuthorizations ps ssa regID) = None"
    by (simp only: CountPendingAuthorizations_def CountPending_tables_no_error)
  show "CountPendingAuthorizations ps \<lparr>dbMap = \<lparr>db = d, faults = True # fs\<rparr>, clk = now\<rparr> regID = (0, None)"
    by (simp add: CountPendingAuthorizations_def authorizationTables_def Query_fault)
  show "CountPendingAuthorizations ps \<lparr>dbMap = \<lparr>db = d, faults = False # True # fs\<rparr>, clk = now\<rparr> regID
     = (int (length (filter (pending_match regID now ps) (authz d))), None)"
    by (simp add: CountPendingAuthorizations_def authorizationTables_def Query_fault Query_ok count_pending_def)
  show "CountPendingAuthorizations ps \<lparr>dbMap = \<lparr>db = d\<lparr>pendingAuthorizations := []\<rparr>, faults = []\<rparr>, clk = now\<rparr> regID
     = (int (length (filter (pending_match regID now ps) (authz d))), None)"
    by (simp add: CountPendingAuthorizations_def authorizationTables_def Query_nofault count_pending_def)
qed

lemma distinct_serials: "distinct (map (\<lambda>i. replicate (Suc i) c) [0..<n])"
  by (simp add: distinct_map inj_on_def del: replicate_Suc)

lemma many_issuedNames_serials:
  "map in_serial (many_issuedNames rd n) = map (\<lambda>i. replicate (Suc i) (CHR ''1'')) [0..<n]"
  by (simp add: many_issuedNames_def comp_def del: replicate_Suc)

lemma many_issuedNames_filter:
  "filter (\<lambda>r. (in_reversedName r = rd \<or> P r) \<and> in_notBefore r > 0 \<and> in_notBefore r \<le> 1)
     (many_issuedNames rd n) = many_issuedNames rd n"
  by (simp add: many_issuedNames_def filter_map comp_def del: replicate_Suc)

lemma countCertificatesByName_many:
  assumes "n \<le> 10001"
  shows "countCertificatesByName ext
           \<lparr>dbMap = \<lparr>db = d\<lparr>issuedNames := many_issuedNames (ReverseName ext domain) n\<rparr>,
                     faults = []\<rparr>, clk = now\<rparr> domain 0 1
         = (int n, None)"
proof -
  let ?rows = "many_issuedNames (ReverseName ext domain) n"
  have len0: "length ?rows = n" by (simp add: many_issuedNames_def)
  then have len: "length (map in_serial ?rows) = n" by simp
  have t: "take 10001 (map in_serial ?rows) = map in_serial ?rows"
    using assms len by simp
  have d: "remdups (map in_serial ?rows) = map in_serial ?rows"
    by (simp only: many_issuedNames_serials distinct_remdups_id distinct_serials)
  show ?thesis
    by (simp add: countCertificatesByName_def Query_nofault select_issuedNames_def
        many_issuedNames_filter t d len len0 Let_def del: replicate_Suc)
qed

lemma countCertificatesByName_no_overflow:
  "snd (countCertificatesByName ext ssa domain earliest latest) \<noteq> Some (TooManyCertificatesError x)"
  by (simp add: countCertificatesByName_def Let_def Query_def select_issuedNames_def next_fault_def
      split: sum.splits prod.splits list.splits)

text \<open>
  C7. On a store with 10001 issued-name rows for example.com, all with different serials
  and inside the window, \<open>countCertificatesByName\<close> returns the count 10001 and no
  error: the variable compared with the cap is never assigned. No call returns the
  overflow error.
\<close>

theorem countCertificatesByName_exceeds_cap:
  "countCertificatesByName ex_collaborators
     \<lparr>dbMap = \<lparr>db = empty_store\<lparr>issuedNames := many_issuedNames ''example.com'' 10001\<rparr>,
               faults = []\<rparr>, clk = 50\<rparr> ''example.com'' 0 1
   = (10001, None) \<and>
   snd (countCertificatesByName ext ssa domain earliest latest) \<noteq> Some (TooManyCertificatesError x)"
proof
  have r: "ReverseName ex_collaborators ''example.com'' = ''example.com''"
    by (simp add: ex_collaborators_def)
  show "countCertificatesByName ex_collaborators
     \<lparr>dbMap = \<lparr>db = empty_store\<lparr>issuedNames := many_issuedNames ''example.com'' 10001\<rparr>,
               faults = []\<rparr>, clk = 50\<rparr> ''example.com'' 0 1
   = (10001, None)"
    using countCertificatesByName_many
      [where n = 10001 and ext = ex_collaborators and d = empty_store
         and domain = "''example.com''" and now = 50]
    by (simp only: r) simp
  show "snd (countCertificatesByName ext ssa domain earliest latest) \<noteq> Some (TooManyCertificatesError x)"
    by (rule countCertificatesByName_no_overflow)
qed

section \<open>Authorization Store: updating a pending authorization\<close>

text \<open>
  C2. A pending authorization held by the legacy table \<open>pendingAuthorizations\<close>, updated
  with a pending status and as many challenges as are stored, is not updated:
  \<open>UpdatePendingAuthorization\<close> compares the location tag with \<open>pendingAuthorization\<close>,
  fails with the table-mismatch error and leaves the store as it was.
\<close>

theorem UpdatePendingAuthorization_legacy_fails:
  "UpdatePendingAuthorization (ssa_on legacy_store []) ex_authz
     = (Some (ErrorString ''Internal error. Table mismatch updating authz''), legacy_store)"
  by (simp add: UpdatePendingAuthorization_def ssa_on_def legacy_store_def empty_store_def
      ex_authz_def ex_challenge_def ex_challModel_def pending_row_def authz_row_def
      Begin_def next_fault_def Rollback_def statusIsPending_def getAuthz_def
      authorizationTables_def Query_def select_authz_by_id_def)

section \<open>Issuance Ledger: all rows or none\<close>

lemma Begin_Inr: "Begin m = Inr tx \<Longrightarrow> db tx = db m"
  by (auto simp add: Begin_def next_fault_def split: list.splits if_splits)

lemma Begin_nofault: "faults m = [] \<Longrightarrow> Begin m = Inr \<lparr>db = db m, faults = []\<rparr>"
  by (simp add: Begin_def next_fault_def)

lemma Exec_Inr: "Exec c stmt = Inr c' \<Longrightarrow> stmt (db c) = Inr (db c')"
  by (auto simp add: Exec_def next_fault_def split: list.splits if_splits sum.splits)

lemma Exec_nofault:
  "faults c = [] \<Longrightarrow>
   Exec c stmt = (case stmt (db c) of Inl err \<Rightarrow> Inl err | Inr d \<Rightarrow> Inr \<lparr>db = d, faults = []\<rparr>)"
  by (simp add: Exec_def next_fault_def)


lemma Commit_nofault: "faults tx = [] \<Longrightarrow> Commit tx m = (None, db tx)"
  by (simp add: Commit_def next_fault_def)

lemma AddCertificate_failure_unchanged:
  "snd (fst (AddCertificate ext ssa certDER regID)) \<noteq> None \<Longrightarrow>
   snd (AddCertificate ext ssa certDER regID) = db (dbMap ssa)"
  by (auto simp add: AddCertificate_def Let_def Rollback_def Commit_def next_fault_def
      split: sum.splits prod.splits list.splits if_splits)

lemma Commit_None: "Commit tx m = (None, d) \<Longrightarrow> d = db tx"
  by (auto simp add: Commit_def next_fault_def split: list.splits if_splits)

lemma insert_certificate_Inr:
  "insert_certificate c d = Inr d' \<Longrightarrow> d' = d\<lparr>certificates := certificates d @ [c]\<rparr>"
  by (auto simp add: insert_certificate_def split: if_splits)

lemma insert_certificateStatus_Inr:
  "insert_certificateStatus c d = Inr d' \<Longrightarrow> d' = d\<lparr>certificateStatus := certificateStatus d @ [c]\<rparr>"
  by (auto simp add: insert_certificateStatus_def split: if_splits)

lemma insert_issuedNames_Inr:
  "insert_issuedNames rows d = Inr d' \<Longrightarrow> d' = d\<lparr>issuedNames := issuedNames d @ rows\<rparr>"
  by (auto simp add: insert_issuedNames_def split: if_splits)

lemma insert_fqdnSet_Inr:
  "insert_fqdnSet f d = Inr d' \<Longrightarrow> d' = d\<lparr>fqdnSets := fqdnSets d @ [f]\<rparr>"
  by (auto simp add: insert_fqdnSet_def)

lemma AddCertificate_success:
  assumes p: "ParseCertificate ext certDER = Inr parsed"
    and ok: "snd (fst (AddCertificate ext ssa certDER regID)) = None"
  shows "snd (AddCertificate ext ssa certDER regID) =
         (db (dbMap ssa))
           \<lparr>certificates := certificates (db (dbMap ssa)) @
              [\<lparr>cert_RegistrationID = regID,
                cert_Serial = SerialToString ext (x509_SerialNumber parsed),
                cert_Digest = Fingerprint256 ext certDER, cert_DER = certDER,
                cert_Issued = clk ssa, cert_Expires = x509_NotAfter parsed\<rparr>],
            certificateStatus := certificateStatus (db (dbMap ssa)) @
              [\<lparr>cs_SubscriberApproved = False, cs_Status = OCSPStatusGood,
                cs_OCSPLastUpdated = 0, cs_OCSPResponse = [],
                cs_Serial = SerialToString ext (x509_SerialNumber parsed),
                cs_RevokedDate = 0, cs_RevokedReason = 0, cs_LockCol = 0\<rparr>],
            issuedNames := issuedNames (db (dbMap ssa)) @
              map (\<lambda>name. \<lparr>in_reversedName = ReverseName ext name,
                            in_serial = SerialToString ext (x509_SerialNumber parsed),
                            in_notBefore = x509_NotBefore parsed\<rparr>) (x509_DNSNames parsed),
            fqdnSets := fqdnSets (db (dbMap ssa)) @
              [\<lparr>fs_SetHash = hashNames (sha256 ext) (x509_DNSNames parsed),
                fs_Serial = SerialToString ext (x509_SerialNumber parsed),
                fs_Issued = x509_NotBefore parsed, fs_Expires = x509_NotAfter parsed\<rparr>]\<rparr>"
proof -
  let ?serial = "SerialToString ext (x509_SerialNumber parsed)"
  let ?cert = "\<lparr>cert_RegistrationID = regID, cert_Serial = ?serial,
                cert_Digest = Fingerprint256 ext certDER, cert_DER = certDER,
                cert_Issued = clk ssa, cert_Expires = x509_NotAfter parsed\<rparr>"
  let ?status = "\<lparr>cs_SubscriberApproved = False, cs_Status = OCSPStatusGood,
                cs_OCSPLastUpdated = 0, cs_OCSPResponse = [], cs_Serial = ?serial,
                cs_RevokedDate = 0, cs_RevokedReason = 0, cs_LockCol = 0\<rparr>"
  from ok obtain tx tx1 tx2 tx3 tx4 where
    b: "Begin (dbMap ssa) = Inr tx" and
    e1: "Exec tx (insert_certificate ?cert) = Inr tx1" and
    e2: "Exec tx1 (insert_certificateStatus ?status) = Inr tx2" and
    e3: "addIssuedNames ext tx2 parsed = Inr tx3" and
    e4: "addFQDNSet ext tx3 (x509_DNSNames parsed) ?serial (x509_NotBefore parsed)
           (x509_NotAfter parsed) = Inr tx4" and
    c: "Commit tx4 (dbMap ssa) = (None, snd (AddCertificate ext ssa certDER regID))"
    by (auto simp add: AddCertificate_def Let_def p Rollback_def split: sum.splits prod.splits)
  have d0: "db tx = db (dbMap ssa)" using b by (rule Begin_Inr)
  have d1: "db tx1 = (db tx)\<lparr>certificates := certificates (db tx) @ [?cert]\<rparr>"
    using Exec_Inr [OF e1] by (rule insert_certificate_Inr)
  have d2: "db tx2 = (db tx1)\<lparr>certificateStatus := certificateStatus (db tx1) @ [?status]\<rparr>"
    using Exec_Inr [OF e2] by (rule insert_certificateStatus_Inr)
  have d3: "db tx3 = (db tx2)\<lparr>issuedNames := issuedNames (db tx2) @
              map (\<lambda>name. \<lparr>in_reversedName = ReverseName ext name, in_serial = ?serial,
                            in_notBefore = x509_NotBefore parsed\<rparr>) (x509_DNSNames parsed)\<rparr>"
    using Exec_Inr [OF e3 [unfolded addIssuedNames_def Let_def]] by (rule insert_issuedNames_Inr)
  have d4: "db tx4 = (db tx3)\<lparr>fqdnSets := fqdnSets (db tx3) @
              [\<lparr>fs_SetHash = hashNames (sha256 ext) (x509_DNSNames parsed), fs_Serial = ?serial,
                fs_Issued = x509_NotBefore parsed, fs_Expires = x509_NotAfter parsed\<rparr>]\<rparr>"
    using Exec_Inr [OF e4 [unfolded addFQDNSet_def]] by (rule insert_fqdnSet_Inr)
  have "snd (AddCertificate ext ssa certDER regID) = db tx4" using c by (rule Commit_None)
  then show ?thesis by (simp add: d4 d3 d2 d1 d0)
qed

lemma AddCertificate_succeeds:
  assumes p: "ParseCertificate ext certDER = Inr parsed"
    and f: "faults (dbMap ssa) = []"
    and s1: "SerialToString ext (x509_SerialNumber parsed) \<notin> set (map cert_Serial (certificates (db (dbMap ssa))))"
    and s2: "SerialToString ext (x509_SerialNumber parsed) \<notin> set (map cs_Serial (certificateStatus (db (dbMap ssa))))"
    and n: "x509_DNSNames parsed \<noteq> []"
  shows "snd (fst (AddCertificate ext ssa certDER regID)) = None"
  using f s1 s2 n
  by (simp add: AddCertificate_def Let_def p Rollback_def Commit_nofault Begin_nofault Exec_nofault
      addIssuedNames_def addFQDNSet_def insert_certificate_def
      insert_certificateStatus_def insert_issuedNames_def insert_fqdnSet_def)

text \<open>
  C6. For a certificate that decodes, \<open>AddCertificate\<close> either fails and leaves every
  table as it was, or succeeds and the store is the old one with exactly these rows
  added: the certificate row, a status row with status good, zero revocation date and
  reason, one issued-name row per DNS name and one FQDN-set row whose hash is the name-set
  digest. It succeeds when the driver reports no failure, the serial is new to both
  certificate tables and the certificate has a DNS name.
\<close>

theorem AddCertificate_all_or_nothing:
  assumes p: "ParseCertificate ext certDER = Inr parsed"
  shows "(snd (fst (AddCertificate ext ssa certDER regID)) \<noteq> None \<longrightarrow>
            snd (AddCertificate ext ssa certDER regID) = db (dbMap ssa)) \<and>
         (snd (fst (AddCertificate ext ssa certDER regID)) = None \<longrightarrow>
            snd (AddCertificate ext ssa certDER regID) =
              (db (dbMap ssa))
                \<lparr>certificates := certificates (db (dbMap ssa)) @
                   [\<lparr>cert_RegistrationID = regID,
                     cert_Serial = SerialToString ext (x509_SerialNumber parsed),
                     cert_Digest = Fingerprint256 ext certDER, cert_DER = certDER,
                     cert_Issued = clk ssa, cert_Expires = x509_NotAfter parsed\<rparr>],
                 certificateStatus := certificateStatus (db (dbMap ssa)) @
                   [\<lparr>cs_SubscriberApproved = False, cs_Status = OCSPStatusGood,
                     cs_OCSPLastUpdated = 0, cs_OCSPResponse = [],
                     cs_Serial = SerialToString ext (x509_SerialNumber parsed),
                     cs_RevokedDate = 0, cs_RevokedReason = 0, cs_LockCol = 0\<rparr>],
                 issuedNames := issuedNames (db (dbMap ssa)) @
                   map (\<lambda>name. \<lparr>in_reversedName = ReverseName ext name,
                                 in_serial = SerialToString ext (x509_SerialNumber parsed),
                                 in_notBefore = x509_NotBefore parsed\<rparr>) (x509_DNSNames parsed),
                 fqdnSets := fqdnSets (db (dbMap ssa)) @
                   [\<lparr>fs_SetHash = hashNames (sha256 ext) (x509_DNSNames parsed),
                     fs_Serial = SerialToString ext (x509_SerialNumber parsed),
                     fs_Issued = x509_NotBefore parsed, fs_Expires = x509_NotAfter parsed\<rparr>]\<rparr>) \<and>
         (faults (dbMap ssa) = [] \<and>
          SerialToString ext (x509_SerialNumber parsed)
            \<notin> set (map cert_Serial (certificates (db (dbMap ssa)))) \<and>
          SerialToString ext (x509_SerialNumber parsed)
            \<notin> set (map cs_Serial (certificateStatus (db (dbMap ssa)))) \<and>
          x509_DNSNames parsed \<noteq> [] \<longrightarrow>
            snd (fst (AddCertificate ext ssa certDER regID)) = None)"
  using AddCertificate_failure_unchanged [of ext ssa certDER regID]
    AddCertificate_success [OF p, of ssa regID]
    AddCertificate_succeeds [OF p, of ssa regID]
  by blast

theorem AddCertificate_all_or_nothing_witness:
  "ParseCertificate ex_collaborators [1] =
     Inr \<lparr>x509_SerialNumber = 7, x509_NotBefore = 10, x509_NotAfter = 90,
          x509_DNSNames = [''a.example.com'', ''B.example.com'']\<rparr> \<and>
   snd (fst (AddCertificate ex_collaborators (ssa_on empty_store []) [1] 1)) = None \<and>
   snd (AddCertificate ex_collaborators (ssa_on empty_store []) [1] 1) =
     empty_store
       \<lparr>certificates :=
          [\<lparr>cert_RegistrationID = 1, cert_Serial = ''07'', cert_Digest = ''digest'',
            cert_DER = [1], cert_Issued = 50, cert_Expires = 90\<rparr>],
        certificateStatus :=
          [\<lparr>cs_SubscriberApproved = False, cs_Status = OCSPStatusGood, cs_OCSPLastUpdated = 0,
            cs_OCSPResponse = [], cs_Serial = ''07'', cs_RevokedDate = 0, cs_RevokedReason = 0,
            cs_LockCol = 0\<rparr>],
        issuedNames :=
          [\<lparr>in_reversedName = ''a.example.com'', in_serial = ''07'', in_notBefore = 10\<rparr>,
           \<lparr>in_reversedName = ''B.example.com'', in_serial = ''07'', in_notBefore = 10\<rparr>],
        fqdnSets :=
          [\<lparr>fs_SetHash = ''a.example.com,b.example.com'', fs_Serial = ''07'', fs_Issued = 10,
            fs_Expires = 90\<rparr>]\<rparr> \<and>
   snd (fst (AddCertificate ex_collaborators (ssa_on empty_store [False, False, True]) [1] 1))
     = Some DriverError \<and>
   snd (AddCertificate ex_collaborators (ssa_on empty_store [False, False, True]) [1] 1) = empty_store"
proof -
  let ?parsed = "\<lparr>x509_SerialNumber = 7, x509_NotBefore = 10, x509_NotAfter = 90,
          x509_DNSNames = [''a.example.com'', ''B.example.com'']\<rparr>"
  have p: "ParseCertificate ex_collaborators [1] = Inr ?parsed"
    by (simp add: ex_collaborators_def)
  have c: "faults (dbMap (ssa_on empty_store [])) = [] \<and>
          SerialToString ex_collaborators (x509_SerialNumber ?parsed)
            \<notin> set (map cert_Serial (certificates (db (dbMap (ssa_on empty_store []))))) \<and>
          SerialToString ex_collaborators (x509_SerialNumber ?parsed)
            \<notin> set (map cs_Serial (certificateStatus (db (dbMap (ssa_on empty_store []))))) \<and>
          x509_DNSNames ?parsed \<noteq> []"
    by (simp add: ssa_on_def empty_store_def)
  note t = AddCertificate_all_or_nothing [OF p, of "ssa_on empty_store []" 1]
  from t c have ok: "snd (fst (AddCertificate ex_collaborators (ssa_on empty_store []) [1] 1)) = None"
    by blast
  have h: "hashNames (sha256 ex_collaborators) [''a.example.com'', ''B.example.com'']
             = ''a.example.com,b.example.com''"
    by (simp add: ex_collaborators_def hashNames_def UniqueLowerNames_def ToLower_def ToLower_char_def)
  from t ok have d: "snd (AddCertificate ex_collaborators (ssa_on empty_store []) [1] 1) =
     empty_store
       \<lparr>certificates :=
          [\<lparr>cert_RegistrationID = 1, cert_Serial = ''07'', cert_Digest = ''digest'',
            cert_DER = [1], cert_Issued = 50, cert_Expires = 90\<rparr>],
        certificateStatus :=
          [\<lparr>cs_SubscriberApproved = False, cs_Status = OCSPStatusGood, cs_OCSPLastUpdated = 0,
            cs_OCSPResponse = [], cs_Serial = ''07'', cs_RevokedDate = 0, cs_RevokedReason = 0,
            cs_LockCol = 0\<rparr>],
        issuedNames :=
          [\<lparr>in_reversedName = ''a.example.com'', in_serial = ''07'', in_notBefore = 10\<rparr>,
           \<lparr>in_reversedName = ''B.example.com'', in_serial = ''07'', in_notBefore = 10\<rparr>],
        fqdnSets :=
          [\<lparr>fs_SetHash = ''a.example.com,b.example.com'', fs_Serial = ''07'', fs_Issued = 10,
            fs_Expires = 90\<rparr>]\<rparr>"
    by (simp add: h) (simp add: ex_collaborators_def ssa_on_def empty_store_def)
  have e: "snd (fst (AddCertificate ex_collaborators (ssa_on empty_store [False, False, True]) [1] 1))
     = Some DriverError"
    by (simp add: AddCertificate_def Let_def p ssa_on_def Begin_def Exec_def next_fault_def
        insert_certificate_def empty_store_def Rollback_def)
  from AddCertificate_all_or_nothing [OF p, of "ssa_on empty_store [False, False, True]" 1] e
  have u: "snd (AddCertificate ex_collaborators (ssa_on empty_store [False, False, True]) [1] 1) = empty_store"
    by (simp add: ssa_on_def)
  show ?thesis using p ok d e u by blast
qed

section \<open>Authorization Store: lookup and challenge rewriting\<close>

lemma Query_Inr: "Query c q = Inr (rows, c') \<Longrightarrow> q (db c) = Inr rows \<and> db c' = db c"
  by (auto simp add: Query_def next_fault_def split: list.splits if_splits sum.splits)

lemma getAuthz_Inr:
  assumes "getAuthz tx ident = Inr ((a, table), tx')"
  shows "db tx' = db tx \<and>
         ((table = ''authz'' \<and> find (\<lambda>r. authz_ID r = ident) (authz (db tx)) = Some a) \<or>
          (table = ''pendingAuthorizations'' \<and>
           find (\<lambda>r. authz_ID r = ident) (authz (db tx)) = None \<and>
           find (\<lambda>r. authz_ID r = ident) (map pa_Authorization (pendingAuthorizations (db tx))) = Some a))"
proof -
  from assms have
    "(\<exists>t1. Query tx (select_authz_by_id ''authz'' ident) = Inr (Some a, t1) \<and> table = ''authz'' \<and> tx' = t1) \<or>
     (\<exists>t1. Query tx (select_authz_by_id ''authz'' ident) = Inr (None, t1) \<and>
        Query t1 (select_authz_by_id ''pendingAuthorizations'' ident) = Inr (Some a, tx') \<and>
        table = ''pendingAuthorizations'')"
    by (auto simp add: getAuthz_def authorizationTables_def split: sum.splits prod.splits option.splits)
  then show ?thesis
  proof (elim disjE exE conjE)
    fix t1
    assume q: "Query tx (select_authz_by_id ''authz'' ident) = Inr (Some a, t1)"
      and t: "table = ''authz''" and e: "tx' = t1"
    from Query_Inr [OF q] show ?thesis using t e by (simp add: select_authz_by_id_def)
  next
    fix t1
    assume q1: "Query tx (select_authz_by_id ''authz'' ident) = Inr (None, t1)"
      and q2: "Query t1 (select_authz_by_id ''pendingAuthorizations'' ident) = Inr (Some a, tx')"
      and t: "table = ''pendingAuthorizations''"
    from Query_Inr [OF q1] Query_Inr [OF q2] show ?thesis using t
      by (simp add: select_authz_by_id_def)
  qed
qed


lemma update_chall_Inr:
  "update_chall c d = Inr d' \<Longrightarrow>
   d' = d\<lparr>challenges := map (\<lambda>r. if cm_ID r = cm_ID c then c else r) (challenges d)\<rparr>"
  by (simp add: update_chall_def)

lemma updateChallenges_rows_Inr:
  "updateChallenges_rows ps tx = Inr tx' \<Longrightarrow>
   \<exists>chs. db tx' = (db tx)\<lparr>challenges := chs\<rparr> \<and>
         map cm_ID chs = map cm_ID (challenges (db tx))"
proof (induction ps arbitrary: tx)
  case Nil
  then have "db tx' = (db tx)\<lparr>challenges := challenges (db tx)\<rparr>" by simp
  then show ?case by blast
next
  case (Cons p ps)
  obtain authChall stored where p: "p = (authChall, stored)" by (cases p)
  let ?chall = "(challengeToModel authChall (cm_AuthorizationID stored))\<lparr>cm_ID := cm_ID stored\<rparr>"
  let ?X = "map (\<lambda>r. if cm_ID r = cm_ID ?chall then ?chall else r) (challenges (db tx))"
  from Cons.prems obtain t1 where
    e: "Exec tx (update_chall ?chall) = Inr t1" and r: "updateChallenges_rows ps t1 = Inr tx'"
    by (auto simp add: p Let_def split: sum.splits)
  have d1: "db t1 = (db tx)\<lparr>challenges := ?X\<rparr>"
    using Exec_Inr [OF e] by (rule update_chall_Inr)
  have ids: "map cm_ID ?X = map cm_ID (challenges (db tx))"
    by (simp add: comp_def cong: map_cong)
  from Cons.IH [OF r] obtain chs where
    c1: "db tx' = (db t1)\<lparr>challenges := chs\<rparr>" and
    c2: "map cm_ID chs = map cm_ID (challenges (db t1))"
    by blast
  have "db tx' = (db tx)\<lparr>challenges := chs\<rparr>" by (simp add: c1 d1)
  moreover have "map cm_ID chs = map cm_ID (challenges (db tx))"
    using c2 ids by (simp add: d1)
  ultimately show ?case by blast
qed

lemma updateChallenges_Inr:
  assumes "updateChallenges authID challs0 tx = Inr tx'"
  shows "\<exists>chs. db tx' = (db tx)\<lparr>challenges := chs\<rparr> \<and>
           map cm_ID chs = map cm_ID (challenges (db tx))"
    and "length (stored_challenges (db tx) authID) = length challs0"
proof -
  from assms obtain challs t1 where
    q: "Query tx (select_challenges authID) = Inr (challs, t1)" and
    l: "length challs = length challs0" and
    r: "updateChallenges_rows (zip challs0 challs) t1 = Inr tx'"
    by (auto simp add: updateChallenges_def split: sum.splits prod.splits if_splits)
  from Query_Inr [OF q] have c: "challs = stored_challenges (db tx) authID" and d: "db t1 = db tx"
    by (simp_all add: select_challenges_def stored_challenges_def)
  show "length (stored_challenges (db tx) authID) = length challs0" using l c by simp
  from updateChallenges_rows_Inr [OF r] show
    "\<exists>chs. db tx' = (db tx)\<lparr>challenges := chs\<rparr> \<and> map cm_ID chs = map cm_ID (challenges (db tx))"
    by (simp add: d)
qed

lemma updateChallenges_mismatch:
  assumes "length (stored_challenges (db tx) authID) \<noteq> length challs0"
  shows "updateChallenges authID challs0 tx = Inl DriverError \<or>
         updateChallenges authID challs0 tx = Inl (ErrorString ''Invalid number of challenges provided'')"
  using assms
  by (auto simp add: updateChallenges_def Query_def next_fault_def select_challenges_def
      stored_challenges_def split: list.splits)

lemma updateChallenges_mismatch_nofault:
  assumes "length (stored_challenges (db tx) authID) \<noteq> length challs0" and "faults tx = []"
  shows "updateChallenges authID challs0 tx = Inl (ErrorString ''Invalid number of challenges provided'')"
  using assms
  by (simp add: updateChallenges_def Query_def next_fault_def select_challenges_def
      stored_challenges_def)

section \<open>Authorization Store: finalizing\<close>

lemma insert_authz_Inr:
  "insert_authz a d = Inr d' \<Longrightarrow> d' = d\<lparr>authz := authz d @ [authz_row a]\<rparr>"
  by (auto simp add: insert_authz_def split: if_splits)


lemma update_authz_Inr:
  "update_authz a d = Inr d' \<Longrightarrow>
   d' = d\<lparr>authz := map (\<lambda>r. if authz_ID r = authz_ID a then authz_row a else r) (authz d)\<rparr>"
  by (simp add: update_authz_def)


lemma Commit_Some: "fst (Commit tx m) \<noteq> None \<longrightarrow> snd (Commit tx m) = db m"
  by (simp add: Commit_def next_fault_def split: list.split)





section \<open>Authorization Store: a challenge count that differs\<close>

lemma conn_nofault: "faults c = [] \<Longrightarrow> c = \<lparr>db = db c, faults = []\<rparr>"
  by (cases c) simp

lemma getAuthz_nofault:
  "getAuthz \<lparr>db = d, faults = []\<rparr> ident =
     (case find (\<lambda>r. authz_ID r = ident) (authz d) of
        Some a \<Rightarrow> Inr ((a, ''authz''), \<lparr>db = d, faults = []\<rparr>)
      | None \<Rightarrow>
          (case find (\<lambda>r. authz_ID r = ident) (map pa_Authorization (pendingAuthorizations d)) of
             Some a \<Rightarrow> Inr ((a, ''pendingAuthorizations''), \<lparr>db = d, faults = []\<rparr>)
           | None \<Rightarrow> Inl NotFound))"
  by (simp add: getAuthz_def authorizationTables_def Query_nofault select_authz_by_id_def
      split: option.split)

lemma update_pending_Inr:
  "update_pending a d = Inr d' \<Longrightarrow> challenges d' = challenges d"
  by (auto simp add: update_pending_def)

lemma UpdatePendingAuthorization_failure_unchanged:
  "fst (UpdatePendingAuthorization ssa authz0) \<noteq> None \<longrightarrow>
   snd (UpdatePendingAuthorization ssa authz0) = db (dbMap ssa)"
  by (simp add: UpdatePendingAuthorization_def Let_def Rollback_def Commit_Some
      split: sum.split prod.split)

lemma UpdatePendingAuthorization_success_count:
  assumes ok: "fst (UpdatePendingAuthorization ssa authz0) = None"
  shows "length (stored_challenges (db (dbMap ssa)) (authz_ID authz0)) = length (authz_Challenges authz0)"
proof -
  from ok obtain tx dbAuthz table tx1 stmt tx2 tx3 where
    b: "Begin (dbMap ssa) = Inr tx" and
    g: "getAuthz tx (authz_ID authz0) = Inr ((dbAuthz, table), tx1)" and
    s: "stmt = update_pending authz0 \<or> stmt = update_authz authz0" and
    e: "Exec tx1 stmt = Inr tx2" and
    u: "updateChallenges (authz_ID authz0) (authz_Challenges authz0) tx2 = Inr tx3"
    by (auto simp add: UpdatePendingAuthorization_def Let_def Rollback_def
        split: sum.splits prod.splits if_splits; blast)
  have d1: "db tx1 = db (dbMap ssa)" using getAuthz_Inr [OF g] Begin_Inr [OF b] by simp
  have "challenges (db tx2) = challenges (db tx1)"
    using s Exec_Inr [OF e] update_pending_Inr update_authz_Inr [of authz0 "db tx1" "db tx2"]
    by auto
  then have "stored_challenges (db tx2) (authz_ID authz0)
             = stored_challenges (db (dbMap ssa)) (authz_ID authz0)"
    by (simp add: stored_challenges_def d1)
  then show ?thesis using updateChallenges_Inr(2) [OF u] by simp
qed

lemma UpdatePendingAuthorization_validation_error:
  assumes f: "faults (dbMap ssa) = []"
    and p: "statusIsPending (authz_Status authz0)"
    and s: "find (\<lambda>r. authz_ID r = authz_ID authz0) (authz (db (dbMap ssa))) = Some dbAuthz"
    and q: "statusIsPending (authz_Status dbAuthz)"
    and l: "length (authz_Challenges authz0) \<noteq> length (stored_challenges (db (dbMap ssa)) (authz_ID authz0))"
  shows "fst (UpdatePendingAuthorization ssa authz0)
           = Some (ErrorString ''Invalid number of challenges provided'')"
proof -
  let ?d = "db (dbMap ssa)"
  let ?d2 = "?d\<lparr>authz := map (\<lambda>r. if authz_ID r = authz_ID authz0 then authz_row authz0 else r) (authz ?d)\<rparr>"
  have b: "Begin (dbMap ssa) = Inr \<lparr>db = ?d, faults = []\<rparr>" using f by (rule Begin_nofault)
  have g: "getAuthz \<lparr>db = ?d, faults = []\<rparr> (authz_ID authz0) = Inr ((dbAuthz, ''authz''), \<lparr>db = ?d, faults = []\<rparr>)"
    by (simp add: getAuthz_nofault s)
  have e: "Exec \<lparr>db = ?d, faults = []\<rparr> (update_authz authz0) = Inr \<lparr>db = ?d2, faults = []\<rparr>"
    by (simp add: Exec_nofault update_authz_def)
  have "length (stored_challenges ?d2 (authz_ID authz0)) \<noteq> length (authz_Challenges authz0)"
    using l by (simp add: stored_challenges_def)
  then have u: "updateChallenges (authz_ID authz0) (authz_Challenges authz0) \<lparr>db = ?d2, faults = []\<rparr>
             = Inl (ErrorString ''Invalid number of challenges provided'')"
    by (intro updateChallenges_mismatch_nofault) simp_all
  show ?thesis
    using p q by (simp add: UpdatePendingAuthorization_def Let_def b g e u Rollback_def)
qed

lemma UpdatePendingAuthorization_final_status:
  assumes f: "faults (dbMap ssa) = []" and p: "\<not> statusIsPending (authz_Status authz0)"
  shows "fst (UpdatePendingAuthorization ssa authz0)
           = Some (ErrorString ''Use FinalizeAuthorization() to update to a final status'')"
  using p by (simp add: UpdatePendingAuthorization_def Let_def Begin_nofault [OF f] Rollback_def)

text \<open>
  C3, as amended. When the number of challenges supplied differs from the number stored
  for the authorization, \<open>UpdatePendingAuthorization\<close> fails and leaves every table as it
  was. With no driver failure, the error is the invalid-number-of-challenges error when
  the supplied status is pending and the unified table holds the record with a pending
  status; it is the use-FinalizeAuthorization error when the supplied status is not
  pending.
\<close>

theorem UpdatePendingAuthorization_count_mismatch:
  assumes l: "length (authz_Challenges authz0)
                \<noteq> length (stored_challenges (db (dbMap ssa)) (authz_ID authz0))"
  shows "fst (UpdatePendingAuthorization ssa authz0) \<noteq> None \<and>
         snd (UpdatePendingAuthorization ssa authz0) = db (dbMap ssa) \<and>
         (faults (dbMap ssa) = [] \<and> statusIsPending (authz_Status authz0) \<and>
          (\<exists>dbAuthz. find (\<lambda>r. authz_ID r = authz_ID authz0) (authz (db (dbMap ssa))) = Some dbAuthz \<and>
                     statusIsPending (authz_Status dbAuthz)) \<longrightarrow>
            fst (UpdatePendingAuthorization ssa authz0)
              = Some (ErrorString ''Invalid number of challenges provided'')) \<and>
         (faults (dbMap ssa) = [] \<and> \<not> statusIsPending (authz_Status authz0) \<longrightarrow>
            fst (UpdatePendingAuthorization ssa authz0)
              = Some (ErrorString ''Use FinalizeAuthorization() to update to a final status''))"
proof -
  have n: "fst (UpdatePendingAuthorization ssa authz0) \<noteq> None"
    using UpdatePendingAuthorization_success_count [of ssa authz0] l by auto
  with UpdatePendingAuthorization_failure_unchanged
  have u: "snd (UpdatePendingAuthorization ssa authz0) = db (dbMap ssa)" by blast
  show ?thesis
    using n u UpdatePendingAuthorization_validation_error [OF _ _ _ _ l]
      UpdatePendingAuthorization_final_status
    by blast
qed

theorem UpdatePendingAuthorization_count_mismatch_counterexample:
  "length (authz_Challenges (ex_authz\<lparr>authz_Status := StatusValid, authz_Challenges := []\<rparr>))
     \<noteq> length (stored_challenges unified_store ''id1'') \<and>
   UpdatePendingAuthorization (ssa_on unified_store [])
       (ex_authz\<lparr>authz_Status := StatusValid, authz_Challenges := []\<rparr>)
     = (Some (ErrorString ''Use FinalizeAuthorization() to update to a final status''), unified_store) \<and>
   fst (UpdatePendingAuthorization (ssa_on unified_store [])
          (ex_authz\<lparr>authz_Status := StatusValid, authz_Challenges := []\<rparr>))
     \<noteq> Some (ErrorString ''Invalid number of challenges provided'')"
  by (simp add: UpdatePendingAuthorization_def ssa_on_def unified_store_def empty_store_def
      ex_authz_def ex_challenge_def ex_challModel_def authz_row_def stored_challenges_def
      Begin_def next_fault_def Rollback_def statusIsPending_def)

theorem UpdatePendingAuthorization_count_mismatch_witness:
  "length (authz_Challenges (ex_authz\<lparr>authz_Challenges := []\<rparr>))
     \<noteq> length (stored_challenges (db (dbMap (ssa_on unified_store []))) (authz_ID (ex_authz\<lparr>authz_Challenges := []\<rparr>))) \<and>
   UpdatePendingAuthorization (ssa_on unified_store []) (ex_authz\<lparr>authz_Challenges := []\<rparr>)
     = (Some (ErrorString ''Invalid number of challenges provided''), unified_store)"
proof -
  let ?a = "ex_authz\<lparr>authz_Challenges := []\<rparr>"
  let ?ssa = "ssa_on unified_store []"
  have l: "length (authz_Challenges ?a)
     \<noteq> length (stored_challenges (db (dbMap ?ssa)) (authz_ID ?a))"
    by (simp add: ssa_on_def unified_store_def empty_store_def ex_authz_def ex_challModel_def
        stored_challenges_def)
  have f: "faults (dbMap ?ssa) = []" by (simp add: ssa_on_def)
  have p: "statusIsPending (authz_Status ?a)" by (simp add: ex_authz_def statusIsPending_def)
  have s: "\<exists>dbAuthz. find (\<lambda>r. authz_ID r = authz_ID ?a) (authz (db (dbMap ?ssa))) = Some dbAuthz \<and>
                     statusIsPending (authz_Status dbAuthz)"
    by (simp add: ssa_on_def unified_store_def empty_store_def ex_authz_def authz_row_def
        statusIsPending_def)
  have d: "db (dbMap ?ssa) = unified_store" by (simp add: ssa_on_def)
  from UpdatePendingAuthorization_count_mismatch [OF l] f p s
  have "fst (UpdatePendingAuthorization ?ssa ?a) = Some (ErrorString ''Invalid number of challenges provided'')"
    and "snd (UpdatePendingAuthorization ?ssa ?a) = unified_store"
    by (simp_all only: d)
  then have "UpdatePendingAuthorization ?ssa ?a
     = (Some (ErrorString ''Invalid number of challenges provided''), unified_store)"
    by (simp add: prod_eq_iff)
  with l show ?thesis by blast
qed


section \<open>Authorization Store: creating a pending authorization\<close>

lemma newAuthzID_find: "newAuthzID tx tokens = find (\<lambda>t. \<not> authzIdExists tx t) tokens"
  by (induction tokens) simp_all

lemma authzIdExists_db: "db tx = db m \<Longrightarrow> authzIdExists tx t = authzIdExists m t"
  by (simp add: authzIdExists_def)

lemma ExecReturning_Inr:
  "ExecReturning c stmt = Inr (row, c') \<Longrightarrow> stmt (db c) = Inr (row, db c')"
  by (auto simp add: ExecReturning_def next_fault_def split: list.splits if_splits sum.splits)

lemma ExecReturning_nofault:
  "faults c = [] \<Longrightarrow>
   ExecReturning c stmt =
     (case stmt (db c) of Inl err \<Rightarrow> Inl err | Inr (row, d) \<Rightarrow> Inr (row, \<lparr>db = d, faults = []\<rparr>))"
  by (simp add: ExecReturning_def next_fault_def)

lemma challengeToModel_modelToChallenge:
  "challengeToModel (modelToChallenge ((challengeToModel c authID)\<lparr>cm_ID := k\<rparr>)) authID
     = (challengeToModel c authID)\<lparr>cm_ID := k\<rparr>"
  by (simp add: challengeToModel_def modelToChallenge_def)

lemma modelToChallenge_strip:
  "(modelToChallenge ((challengeToModel c authID)\<lparr>cm_ID := k\<rparr>))\<lparr>chall_ID := 0\<rparr> = c\<lparr>chall_ID := 0\<rparr>"
  by (simp add: challengeToModel_def modelToChallenge_def)

lemma insertChallenges_Inr:
  "insertChallenges authID cs done tx = Inr (challs, tx') \<Longrightarrow>
   \<exists>new. challs = done @ new \<and>
         db tx' = (db tx)\<lparr>challenges := challenges (db tx) @ map (\<lambda>c. challengeToModel c authID) new\<rparr> \<and>
         map (\<lambda>c. c\<lparr>chall_ID := 0\<rparr>) new = map (\<lambda>c. c\<lparr>chall_ID := 0\<rparr>) cs"
proof (induction cs arbitrary: "done" tx)
  case Nil
  then have "challs = done @ []" and "db tx' = (db tx)\<lparr>challenges := challenges (db tx) @ map (\<lambda>c. challengeToModel c authID) []\<rparr>"
    by simp_all
  then show ?case by (intro exI [of _ "[]"]) simp
next
  case (Cons c cs)
  from Cons.prems obtain row t1 where
    e: "ExecReturning tx (insert_chall (challengeToModel c authID)) = Inr (row, t1)" and
    r: "insertChallenges authID cs (done @ [modelToChallenge row]) t1 = Inr (challs, tx')"
    by (auto split: sum.splits prod.splits)
  let ?row = "(challengeToModel c authID)\<lparr>cm_ID := next_chall_ID (challenges (db tx))\<rparr>"
  from ExecReturning_Inr [OF e] have row: "row = ?row"
    and d1: "db t1 = (db tx)\<lparr>challenges := challenges (db tx) @ [?row]\<rparr>"
    by (auto simp add: insert_chall_def Let_def)
  from Cons.IH [OF r] obtain new where
    n1: "challs = (done @ [modelToChallenge row]) @ new" and
    n2: "db tx' = (db t1)\<lparr>challenges := challenges (db t1) @ map (\<lambda>c. challengeToModel c authID) new\<rparr>" and
    n3: "map (\<lambda>c. c\<lparr>chall_ID := 0\<rparr>) new = map (\<lambda>c. c\<lparr>chall_ID := 0\<rparr>) cs"
    by blast
  let ?new = "modelToChallenge row # new"
  have "challs = done @ ?new" using n1 by simp
  moreover have "db tx' = (db tx)\<lparr>challenges := challenges (db tx) @ map (\<lambda>c. challengeToModel c authID) ?new\<rparr>"
    by (simp add: n2 d1 row challengeToModel_modelToChallenge)
  moreover have "map (\<lambda>c. c\<lparr>chall_ID := 0\<rparr>) ?new = map (\<lambda>c. c\<lparr>chall_ID := 0\<rparr>) (c # cs)"
    using n3 by (simp add: row modelToChallenge_strip)
  ultimately show ?case by blast
qed

lemma insertChallenges_nofault:
  "faults tx = [] \<Longrightarrow>
   \<exists>challs tx'. insertChallenges authID cs done tx = Inr (challs, tx') \<and> faults tx' = []"
proof (induction cs arbitrary: "done" tx)
  case Nil
  then show ?case by simp
next
  case (Cons c cs)
  let ?row = "(challengeToModel c authID)\<lparr>cm_ID := next_chall_ID (challenges (db tx))\<rparr>"
  let ?t1 = "\<lparr>db = (db tx)\<lparr>challenges := challenges (db tx) @ [?row]\<rparr>, faults = []\<rparr>"
  have e: "ExecReturning tx (insert_chall (challengeToModel c authID)) = Inr (?row, ?t1)"
    using Cons.prems by (simp add: ExecReturning_nofault insert_chall_def Let_def)
  have "faults ?t1 = []" by simp
  from Cons.IH [OF this, of "done @ [modelToChallenge ?row]"] show ?case
    by (simp add: e)
qed

lemma Commit_Some_db: "Commit tx m = (Some err, d) \<Longrightarrow> d = db m"
  by (auto simp add: Commit_def next_fault_def split: list.splits if_splits)

lemma Commit_None_db: "Commit tx m = (None, d) \<Longrightarrow> d = db tx"
  by (auto simp add: Commit_def next_fault_def split: list.splits if_splits)

lemma NewPendingAuthorization_cases:
  assumes r: "NewPendingAuthorization ssa tokens authz0 = Some (res, d')"
  shows "(\<exists>err. res = Inl err \<and> d' = db (dbMap ssa)) \<or>
         (\<exists>tx ident tx1 challs tx2.
            Begin (dbMap ssa) = Inr tx \<and> newAuthzID tx tokens = Some ident \<and>
            Exec tx (insert_authz (authz0\<lparr>authz_ID := ident, authz_Status := StatusPending\<rparr>)) = Inr tx1 \<and>
            insertChallenges ident (authz_Challenges authz0) [] tx1 = Inr (challs, tx2) \<and>
            d' = db tx2 \<and>
            res = Inr (authz0\<lparr>authz_ID := ident, authz_Status := StatusPending,
                              authz_Challenges := challs\<rparr>))"
  using r
  by (auto simp add: NewPendingAuthorization_def Let_def Rollback_def
      split: sum.splits prod.splits option.splits dest: Commit_Some_db Commit_None_db)

lemma NewPendingAuthorization_returns:
  assumes fresh: "find (\<lambda>t. \<not> authzIdExists (dbMap ssa) t) tokens = Some ident"
  shows "\<exists>res d'. NewPendingAuthorization ssa tokens authz0 = Some (res, d')"
proof (cases "Begin (dbMap ssa)")
  case (Inl err)
  then show ?thesis by (simp add: NewPendingAuthorization_def Let_def)
next
  case (Inr tx)
  have "authzIdExists tx = authzIdExists (dbMap ssa)"
    using authzIdExists_db [OF Begin_Inr [OF Inr]] by (intro ext)
  then have n: "newAuthzID tx tokens = Some ident"
    using fresh by (simp add: newAuthzID_find)
  show ?thesis
    by (simp add: NewPendingAuthorization_def Let_def Inr n
        split: sum.split prod.split option.split)
qed

lemma NewPendingAuthorization_nofault:
  assumes fresh: "find (\<lambda>t. \<not> authzIdExists (dbMap ssa) t) tokens = Some ident"
    and f: "faults (dbMap ssa) = []"
  shows "\<exists>a d'. NewPendingAuthorization ssa tokens authz0 = Some (Inr a, d')"
proof -
  let ?d = "db (dbMap ssa)"
  let ?tx = "\<lparr>db = ?d, faults = []\<rparr>"
  let ?a1 = "authz0\<lparr>authz_ID := ident, authz_Status := StatusPending\<rparr>"
  let ?tx1 = "\<lparr>db = ?d\<lparr>authz := authz ?d @ [authz_row ?a1]\<rparr>, faults = []\<rparr>"
  have b: "Begin (dbMap ssa) = Inr ?tx" using f by (rule Begin_nofault)
  have "authzIdExists ?tx = authzIdExists (dbMap ssa)"
    by (intro ext authzIdExists_db) simp
  then have n: "newAuthzID ?tx tokens = Some ident"
    using fresh by (simp add: newAuthzID_find)
  from fresh have "\<not> authzIdExists (dbMap ssa) ident" by (auto simp add: find_Some_iff)
  then have "ident \<notin> set (map authz_ID (authz ?d))" by (simp add: authzIdExists_def)
  then have e: "Exec ?tx (insert_authz ?a1) = Inr ?tx1"
    by (simp add: Exec_nofault insert_authz_def)
  have "faults ?tx1 = []" by simp
  from insertChallenges_nofault [OF this, of ident "authz_Challenges authz0" "[]"]
  obtain challs tx2 where
    i: "insertChallenges ident (authz_Challenges authz0) [] ?tx1 = Inr (challs, tx2)" and
    f2: "faults tx2 = []" by blast
  have c: "Commit tx2 (dbMap ssa) = (None, db tx2)" using f2 by (rule Commit_nofault)
  show ?thesis
    by (simp add: NewPendingAuthorization_def Let_def b n e i c)
qed

text \<open>
  C4. Let the token supply hold a token that is no id of either authorization table, and
  let \<open>ident\<close> be the first such token. Then \<open>NewPendingAuthorization\<close> returns. When it
  returns an error the store is as it was. When it returns an authorization, that is the
  input with its id set to \<open>ident\<close>, its status set to pending whatever the caller gave,
  and its challenges carrying the ids of their rows; the store is the old one with the
  authorization row added to the unified table and one challenge row per supplied
  challenge. With no driver failure it returns an authorization.
\<close>

theorem NewPendingAuthorization_spec:
  assumes fresh: "find (\<lambda>t. \<not> authzIdExists (dbMap ssa) t) tokens = Some ident"
  shows "\<exists>res d'. NewPendingAuthorization ssa tokens authz0 = Some (res, d') \<and>
           (case res of
              Inl err \<Rightarrow> d' = db (dbMap ssa)
            | Inr a \<Rightarrow>
                a = authz0\<lparr>authz_ID := ident, authz_Status := StatusPending,
                           authz_Challenges := authz_Challenges a\<rparr> \<and>
                map (\<lambda>c. c\<lparr>chall_ID := 0\<rparr>) (authz_Challenges a)
                  = map (\<lambda>c. c\<lparr>chall_ID := 0\<rparr>) (authz_Challenges authz0) \<and>
                d' = (db (dbMap ssa))
                       \<lparr>authz := authz (db (dbMap ssa)) @ [authz_row a],
                        challenges := challenges (db (dbMap ssa)) @
                          map (\<lambda>c. challengeToModel c ident) (authz_Challenges a)\<rparr>) \<and>
           (faults (dbMap ssa) = [] \<longrightarrow> (\<exists>a. res = Inr a)) \<and>
           \<not> authzIdExists (dbMap ssa) ident"
proof -
  let ?d = "db (dbMap ssa)"
  from NewPendingAuthorization_returns [OF fresh, of authz0] obtain res d' where
    r: "NewPendingAuthorization ssa tokens authz0 = Some (res, d')" by blast
  have nf: "faults (dbMap ssa) = [] \<longrightarrow> (\<exists>a. res = Inr a)"
    using NewPendingAuthorization_nofault [OF fresh, of authz0] r by auto
  have ne: "\<not> authzIdExists (dbMap ssa) ident"
    using fresh by (auto simp add: find_Some_iff)
  have "case res of
              Inl err \<Rightarrow> d' = ?d
            | Inr a \<Rightarrow>
                a = authz0\<lparr>authz_ID := ident, authz_Status := StatusPending,
                           authz_Challenges := authz_Challenges a\<rparr> \<and>
                map (\<lambda>c. c\<lparr>chall_ID := 0\<rparr>) (authz_Challenges a)
                  = map (\<lambda>c. c\<lparr>chall_ID := 0\<rparr>) (authz_Challenges authz0) \<and>
                d' = ?d\<lparr>authz := authz ?d @ [authz_row a],
                        challenges := challenges ?d @
                          map (\<lambda>c. challengeToModel c ident) (authz_Challenges a)\<rparr>"
    using NewPendingAuthorization_cases [OF r]
  proof (elim disjE exE conjE)
    fix err assume "res = Inl err" and "d' = ?d"
    then show ?thesis by simp
  next
    fix tx ident' tx1 challs tx2
    assume b: "Begin (dbMap ssa) = Inr tx"
      and n: "newAuthzID tx tokens = Some ident'"
      and e: "Exec tx (insert_authz (authz0\<lparr>authz_ID := ident', authz_Status := StatusPending\<rparr>)) = Inr tx1"
      and i: "insertChallenges ident' (authz_Challenges authz0) [] tx1 = Inr (challs, tx2)"
      and d: "d' = db tx2"
      and a: "res = Inr (authz0\<lparr>authz_ID := ident', authz_Status := StatusPending,
                              authz_Challenges := challs\<rparr>)"
    have "authzIdExists tx = authzIdExists (dbMap ssa)"
      using authzIdExists_db [OF Begin_Inr [OF b]] by (intro ext)
    then have id: "ident' = ident" using n fresh by (simp add: newAuthzID_find)
    have d1: "db tx1 = ?d\<lparr>authz := authz ?d @ [authz_row (authz0\<lparr>authz_ID := ident, authz_Status := StatusPending\<rparr>)]\<rparr>"
      using insert_authz_Inr [OF Exec_Inr [OF e]] Begin_Inr [OF b] by (simp add: id)
    from insertChallenges_Inr [OF i] obtain new where
      n1: "challs = new" and
      n2: "db tx2 = (db tx1)\<lparr>challenges := challenges (db tx1) @ map (\<lambda>c. challengeToModel c ident) new\<rparr>" and
      n3: "map (\<lambda>c. c\<lparr>chall_ID := 0\<rparr>) new = map (\<lambda>c. c\<lparr>chall_ID := 0\<rparr>) (authz_Challenges authz0)"
      by (auto simp add: id)
    show ?thesis
      using n3 by (simp add: a d n1 n2 d1 id authz_row_def)
  qed
  with r nf ne show ?thesis by blast
qed

theorem NewPendingAuthorization_spec_witness:
  "find (\<lambda>t. \<not> authzIdExists (dbMap (ssa_on legacy_store [])) t) [''id1'', ''id2''] = Some ''id2'' \<and>
   \<not> authzIdExists (dbMap (ssa_on legacy_store [])) ''id2'' \<and>
   NewPendingAuthorization (ssa_on legacy_store []) [''id1'', ''id2'']
       (ex_authz\<lparr>authz_Status := StatusValid\<rparr>)
     = Some (Inr (ex_authz\<lparr>authz_ID := ''id2'',
                            authz_Challenges := [ex_challenge\<lparr>chall_ID := 2\<rparr>]\<rparr>),
             legacy_store
               \<lparr>authz := [authz_row (ex_authz\<lparr>authz_ID := ''id2''\<rparr>)],
                challenges := [ex_challModel,
                               ex_challModel\<lparr>cm_ID := 2, cm_AuthorizationID := ''id2'',
                                             cm_Status := StatusValid\<rparr>]\<rparr>) \<and>
   NewPendingAuthorization (ssa_on legacy_store [False, False, True]) [''id1'', ''id2'']
       (ex_authz\<lparr>authz_Status := StatusValid\<rparr>)
     = Some (Inl DriverError, legacy_store)"
proof -
  let ?ssa = "ssa_on legacy_store []"
  have fresh: "find (\<lambda>t. \<not> authzIdExists (dbMap ?ssa) t) [''id1'', ''id2''] = Some ''id2''"
    by (simp add: authzIdExists_def ssa_on_def legacy_store_def empty_store_def pending_row_def
        authz_row_def ex_authz_def)
  have r1: "NewPendingAuthorization ?ssa [''id1'', ''id2''] (ex_authz\<lparr>authz_Status := StatusValid\<rparr>)
     = Some (Inr (ex_authz\<lparr>authz_ID := ''id2'',
                            authz_Challenges := [ex_challenge\<lparr>chall_ID := 2\<rparr>]\<rparr>),
             legacy_store
               \<lparr>authz := [authz_row (ex_authz\<lparr>authz_ID := ''id2''\<rparr>)],
                challenges := [ex_challModel,
                               ex_challModel\<lparr>cm_ID := 2, cm_AuthorizationID := ''id2'',
                                             cm_Status := StatusValid\<rparr>]\<rparr>)"
    by (simp add: NewPendingAuthorization_def ssa_on_def legacy_store_def empty_store_def
        ex_authz_def ex_challenge_def ex_challModel_def pending_row_def authz_row_def
        Begin_def next_fault_def Rollback_def authzIdExists_def Exec_def ExecReturning_def
        Commit_def insert_authz_def insert_chall_def next_chall_ID_def challengeToModel_def
        modelToChallenge_def Let_def)
  from NewPendingAuthorization_spec [OF fresh, of "ex_authz\<lparr>authz_Status := StatusValid\<rparr>"]
  have ne: "\<not> authzIdExists (dbMap ?ssa) ''id2''" by blast
  have e: "NewPendingAuthorization (ssa_on legacy_store [False, False, True]) [''id1'', ''id2'']
          (ex_authz\<lparr>authz_Status := StatusValid\<rparr>) = Some (Inl DriverError, legacy_store)"
    by (simp add: NewPendingAuthorization_def ssa_on_def legacy_store_def empty_store_def
        ex_authz_def ex_challenge_def ex_challModel_def pending_row_def authz_row_def
        Begin_def next_fault_def Rollback_def authzIdExists_def Exec_def ExecReturning_def
        Commit_def insert_authz_def insert_chall_def next_chall_ID_def challengeToModel_def
        modelToChallenge_def Let_def)
  show ?thesis using fresh ne r1 e by blast
qed

section \<open>Authorization Store: the status transitions\<close>








lemma stored_status_challenges [simp]:
  "stored_status (d\<lparr>challenges := chs\<rparr>) i = stored_status d i"
  by (simp add: stored_status_def cong: option.case_cong)

lemma authz_ID_authz_row [simp]: "authz_ID (authz_row a) = authz_ID a"
  by (simp add: authz_row_def)

lemma authz_Status_authz_row [simp]: "authz_Status (authz_row a) = authz_Status a"
  by (simp add: authz_row_def)













end
